theory Spec2Isabelle
  imports Complex_Main "HOL-Library.AList" "HOL-Library.Sorting_Algorithms"
    "HOL-Library.List_Lexorder" "HOL-Library.Char_ord"
begin

section \<open>Shared data model\<close>

text \<open>
  The coordination routes of Relay (\<^verbatim>\<open>app/api/check_status/route.ts\<close>,
  \<^verbatim>\<open>app/api/post_status/route.ts\<close>), the MCP adapter (\<^verbatim>\<open>app/mcp/route.ts\<close>), the
  activity log (\<^verbatim>\<open>lib/activity.ts\<close>) and the graph builder (\<^verbatim>\<open>lib/graph-service.ts\<close>)
  are embedded as pure functions. Everything a handler awaits (repository host, key/value
  store, lock registry) is an explicit input whose outcome is either a thrown exception or
  a returned value.
\<close>

datatype exn = GitHubQuotaError string | OtherError string

type_synonym 'a outcome = "exn + 'a"

type_synonym headers = "string \<rightharpoonup> string"

text \<open>
  JavaScript's \<^verbatim>\<open>a || b || lit\<close> on header values: \<^verbatim>\<open>headers.get\<close> yields
  \<^verbatim>\<open>null\<close> (here \<open>None\<close>) or a string, and both \<^verbatim>\<open>null\<close> and the empty string are falsy.
\<close>

fun first_truthy :: "string option list \<Rightarrow> string \<Rightarrow> string" where
  "first_truthy [] lit = lit"
| "first_truthy (None # rest) lit = first_truthy rest lit"
| "first_truthy (Some s # rest) lit = (if s = [] then first_truthy rest lit else s)"

text \<open>
  A lock is \<^verbatim>\<open>READING\<close> or \<^verbatim>\<open>WRITING\<close>; the status of a request or of an activity event
  may also be \<^verbatim>\<open>OPEN\<close>. The constructors of the second type carry a prefix where the
  names would clash.
\<close>

datatype lock_status = READING | WRITING

datatype coordination_status = OPEN | ST_READING | ST_WRITING

record LockEntry =
  file_path :: string
  user_id :: string
  user_name :: string
  status :: lock_status
  agent_head :: string
  message :: string
  timestamp :: int
  expiry :: int

datatype lock_type = DIRECT | NEIGHBOR

record EnrichedLockEntry = LockEntry +
  user :: string
  lock_type :: lock_type

text \<open>
  \<^verbatim>\<open>GraphNode\<close> has the fields \<^verbatim>\<open>id\<close>, \<^verbatim>\<open>size\<close> and \<^verbatim>\<open>language\<close>; they are prefixed here
  because \<open>id\<close> and \<open>size\<close> are constants of HOL. The constant field \<^verbatim>\<open>type\<close> of nodes,
  edges and orchestration commands is left out.
\<close>

record GraphNode =
  node_id :: string
  node_size :: "nat option"
  node_language :: "string option"

record GraphEdge =
  source :: string
  target :: string

record GraphMetadata =
  generated_at :: int
  files_processed :: nat
  edges_found :: nat

record DependencyGraph =
  nodes :: "GraphNode list"
  edges :: "GraphEdge list"
  locks :: "string \<rightharpoonup> LockEntry"
  version :: string
  metadata :: GraphMetadata

datatype action = PROCEED | PULL | PUSH | WAIT | SWITCH_TASK | STOP

record orchestration =
  action :: action
  command :: "string option"
  reason :: string

record error_payload =
  error :: string
  details :: "string option"
  retry_after_ms :: "int option"

text \<open>A JavaScript \<^verbatim>\<open>Set<string>\<close> keeps insertion order and ignores a repeated add.\<close>

definition set_add :: "string \<Rightarrow> string list \<Rightarrow> string list" where
  "set_add x xs = (if x \<in> set xs then xs else xs @ [x])"

text \<open>
  The \<^verbatim>\<open>catch\<close> block shared by both routes: a quota error becomes HTTP 429, anything
  else HTTP 500 with the exception's message as \<^verbatim>\<open>details\<close>. The reset time read from
  the quota error is an input (\<^verbatim>\<open>getGitHubQuotaResetMs\<close> is not part of the routes).
\<close>

definition catch_payload :: "int option \<Rightarrow> exn \<Rightarrow> nat \<times> error_payload" where
  "catch_payload retryAtMs e =
     (case e of
        GitHubQuotaError msg \<Rightarrow>
          (429, \<lparr>error = ''GitHub API rate limit exceeded'', details = Some msg,
                 retry_after_ms = retryAtMs\<rparr>)
      | OtherError msg \<Rightarrow>
          (500, \<lparr>error = ''Internal server error'', details = Some msg,
                 retry_after_ms = None\<rparr>))"

definition missing_required_fields :: error_payload where
  "missing_required_fields =
     \<lparr>error = ''Missing required fields'', details = None, retry_after_ms = None\<rparr>"

section \<open>check_status\<close>

text \<open>
  The request as the route sees it through \<^verbatim>\<open>lib/validation\<close> (whose source is not part
  of the routes): \<open>cr_missing\<close> is the result of \<^verbatim>\<open>getMissingFields\<close>; a string field is
  \<open>Some s\<close> exactly when \<^verbatim>\<open>isNonEmptyString\<close> accepts the body's value \<open>s\<close>;
  \<open>cr_file_paths\<close> is the result of \<^verbatim>\<open>normalizeFilePaths\<close> (\<open>None\<close> for \<^verbatim>\<open>null\<close>).
\<close>

record check_request =
  cr_missing :: "string list"
  cr_repo_url :: "string option"
  cr_branch :: "string option"
  cr_file_paths :: "string list option"
  cr_agent_head :: "string option"
  cr_headers :: headers

text \<open>
  What the handler awaits, in the order it awaits it: \<^verbatim>\<open>parseRepoUrl\<close> followed by
  \<^verbatim>\<open>getRepoHeadCached\<close> (\<open>ce_repo_head\<close>), \<^verbatim>\<open>getLocks\<close> (\<open>ce_locks\<close>) and
  \<^verbatim>\<open>GraphService.getCached\<close> (\<open>ce_cached_graph\<close>; \<open>Inl\<close> when the read throws,
  \<open>Inr None\<close> when it returns \<^verbatim>\<open>null\<close>).
\<close>

record check_env =
  ce_repo_head :: "string outcome"
  ce_locks :: "(string \<rightharpoonup> LockEntry) outcome"
  ce_cached_graph :: "DependencyGraph option outcome"
  ce_retry_at :: "int option"

datatype check_top_status = OK | STALE | CONFLICT

record check_result =
  cs_status :: check_top_status
  cs_repo_head :: string
  cs_locks :: "(string \<times> EnrichedLockEntry) list"
  cs_warnings :: "string list"
  cs_orchestration :: orchestration

datatype check_body = CheckResult check_result | CheckError error_payload

type_synonym check_response = "nat \<times> check_body"

definition enrich :: "LockEntry \<Rightarrow> lock_type \<Rightarrow> EnrichedLockEntry" where
  "enrich l t = LockEntry.extend l \<lparr>user = user_id l, lock_type = t\<rparr>"

text \<open>
  \<^verbatim>\<open>enrichedLocks\<close> is a JavaScript object used as a dictionary: an association list in
  insertion order, where assigning to an existing key keeps its position.
\<close>

definition direct_locks ::
  "string list \<Rightarrow> (string \<rightharpoonup> LockEntry) \<Rightarrow> (string \<times> EnrichedLockEntry) list" where
  "direct_locks filePaths allLocks =
     fold (\<lambda>filePath acc.
             case allLocks filePath of
               None \<Rightarrow> acc
             | Some l \<Rightarrow> AList.update filePath (enrich l DIRECT) acc)
          filePaths []"

definition neighbor_step :: "string list \<Rightarrow> GraphEdge \<Rightarrow> string list \<Rightarrow> string list" where
  "neighbor_step requested e acc =
     (let acc1 = (if source e \<in> set requested \<and> target e \<notin> set requested
                  then set_add (target e) acc else acc)
      in if target e \<in> set requested \<and> source e \<notin> set requested
         then set_add (source e) acc1 else acc1)"

definition neighbor_paths :: "string list \<Rightarrow> GraphEdge list \<Rightarrow> string list" where
  "neighbor_paths requested es = fold (neighbor_step requested) es []"

definition neighbor_locks ::
  "string list \<Rightarrow> (string \<rightharpoonup> LockEntry) \<Rightarrow> (string \<times> EnrichedLockEntry) list
     \<Rightarrow> (string \<times> EnrichedLockEntry) list" where
  "neighbor_locks neighborPaths allLocks enriched =
     fold (\<lambda>neighborPath acc.
             case allLocks neighborPath of
               None \<Rightarrow> acc
             | Some l \<Rightarrow>
                 if map_of acc neighborPath \<noteq> None then acc
                 else AList.update neighborPath (enrich l NEIGHBOR) acc)
          neighborPaths enriched"

text \<open>
  The inner \<^verbatim>\<open>try { ... } catch { }\<close> around the graph read: a throwing read and a
  \<^verbatim>\<open>null\<close> graph both leave \<^verbatim>\<open>enrichedLocks\<close> as the direct locks.
\<close>

definition enriched_locks ::
  "string list \<Rightarrow> (string \<rightharpoonup> LockEntry) \<Rightarrow> DependencyGraph option outcome
     \<Rightarrow> (string \<times> EnrichedLockEntry) list" where
  "enriched_locks filePaths allLocks cached =
     (let direct = direct_locks filePaths allLocks
      in case cached of
           Inl _ \<Rightarrow> direct
         | Inr None \<Rightarrow> direct
         | Inr (Some g) \<Rightarrow>
             neighbor_locks (neighbor_paths filePaths (edges g)) allLocks direct)"

definition requestingUser :: "headers \<Rightarrow> string" where
  "requestingUser h = first_truthy [h ''x-github-user'', h ''x-github-username''] ''''"

definition conflicting_locks ::
  "string \<Rightarrow> (string \<times> EnrichedLockEntry) list \<Rightarrow> (string \<times> EnrichedLockEntry) list" where
  "conflicting_locks u enriched = filter (\<lambda>(p, l). user_id l \<noteq> u) enriched"

definition lock_type_name :: "lock_type \<Rightarrow> string" where
  "lock_type_name t = (case t of DIRECT \<Rightarrow> ''DIRECT'' | NEIGHBOR \<Rightarrow> ''NEIGHBOR'')"

definition check_orchestration ::
  "bool \<Rightarrow> string \<Rightarrow> (string \<times> EnrichedLockEntry) list \<Rightarrow> orchestration" where
  "check_orchestration isStale repoHead conflicting =
     (if isStale then
        \<lparr>action = PULL, command = Some ''git pull --rebase'',
         reason = ''Your local repo is behind. Current HEAD: '' @ repoHead\<rparr>
      else case conflicting of
             (filePath, firstLock) # _ \<Rightarrow>
               \<lparr>action = SWITCH_TASK, command = None,
                reason = ''File '' @ [CHR 0x27] @ filePath @ [CHR 0x27] @ '' is locked by ''
                         @ user_name firstLock @ '' ('' @ lock_type_name (lock_type firstLock)
                         @ '')''\<rparr>
           | [] \<Rightarrow> \<lparr>action = PROCEED, command = None, reason = ''''\<rparr>)"

definition check_top :: "bool \<Rightarrow> (string \<times> EnrichedLockEntry) list \<Rightarrow> check_top_status" where
  "check_top isStale conflicting =
     (let s0 = OK;
          s1 = (if isStale then STALE else s0)
      in if conflicting \<noteq> [] then CONFLICT else s1)"

definition check_status :: "check_env \<Rightarrow> check_request \<Rightarrow> check_response" where
  "check_status env req =
     (if cr_missing req \<noteq> [] then (400, CheckError missing_required_fields)
      else case (cr_repo_url req, cr_branch req, cr_agent_head req, cr_file_paths req) of
        (Some repoUrl, Some branch, Some agentHead, Some filePaths) \<Rightarrow>
          if filePaths = [] then (400, CheckError missing_required_fields)
          else
            (case ce_repo_head env of
               Inl e \<Rightarrow> (case catch_payload (ce_retry_at env) e of (c, p) \<Rightarrow> (c, CheckError p))
             | Inr repoHead \<Rightarrow>
                (case ce_locks env of
                   Inl e \<Rightarrow>
                     (case catch_payload (ce_retry_at env) e of (c, p) \<Rightarrow> (c, CheckError p))
                 | Inr allLocks \<Rightarrow>
                     (let isStale = (agentHead \<noteq> repoHead);
                          enriched = enriched_locks filePaths allLocks (ce_cached_graph env);
                          conflicting =
                            conflicting_locks (requestingUser (cr_headers req)) enriched
                      in (200, CheckResult
                            \<lparr>cs_status = check_top isStale conflicting,
                             cs_repo_head = repoHead,
                             cs_locks = enriched,
                             cs_warnings =
                               (if isStale
                                then [''STALE_BRANCH: Your branch is behind origin/'' @ branch]
                                else []),
                             cs_orchestration =
                               check_orchestration isStale repoHead conflicting\<rparr>))))
      | _ \<Rightarrow> (400, CheckError missing_required_fields))"

section \<open>post_status\<close>

text \<open>
  The request seen through \<^verbatim>\<open>lib/validation\<close>, as for \<open>check_request\<close>;
  \<open>pr_status\<close> is the result of \<^verbatim>\<open>parseCoordinationStatus\<close>.
\<close>

record post_request =
  pr_missing :: "string list"
  pr_repo_url :: "string option"
  pr_branch :: "string option"
  pr_file_paths :: "string list option"
  pr_status :: "coordination_status option"
  pr_message :: "string option"
  pr_agent_head :: "string option"
  pr_new_repo_head :: "string option"
  pr_headers :: headers

record acquire_input =
  ai_repoUrl :: string
  ai_branch :: string
  ai_filePaths :: "string list"
  ai_userId :: string
  ai_userName :: string
  ai_status :: coordination_status
  ai_message :: string
  ai_agentHead :: string

datatype lock_result =
    AcquireOk "LockEntry list"
  | AcquireFailed "string option" "string option" "string option"

text \<open>Every call the handler makes to the lock registry, in order.\<close>

datatype lock_call =
    ReleaseLocks string string "string list" string
  | AcquireLocks acquire_input

record post_env =
  pe_repo_head :: "string outcome"
  pe_releaseLocks :: "string \<Rightarrow> string \<Rightarrow> string list \<Rightarrow> string \<Rightarrow> bool outcome"
  pe_acquireLocks :: "acquire_input \<Rightarrow> lock_result outcome"
  pe_cached_graph :: "DependencyGraph option outcome"
  pe_retry_at :: "int option"

record post_result =
  success :: bool
  result_locks :: "LockEntry list option"
  orphaned_dependencies :: "string list option"
  post_orchestration :: orchestration
  pull_metadata :: "(string \<times> string) option"

datatype post_body = PostResult post_result | PostError error_payload

record post_response =
  http_status :: nat
  body :: post_body
  lock_calls :: "lock_call list"

definition userId :: "headers \<Rightarrow> string" where
  "userId h = first_truthy [h ''x-github-user'', h ''x-github-username''] ''anonymous''"

definition userName :: "headers \<Rightarrow> string" where
  "userName h = first_truthy [h ''x-github-username'', h ''x-github-user''] ''Anonymous''"

definition orphaned_step :: "string list \<Rightarrow> GraphEdge \<Rightarrow> string list \<Rightarrow> string list" where
  "orphaned_step released e acc =
     (if target e \<in> set released \<and> source e \<notin> set released
      then set_add (source e) acc else acc)"

definition orphanedDependencies ::
  "string list \<Rightarrow> DependencyGraph option outcome \<Rightarrow> string list" where
  "orphanedDependencies filePaths cached =
     (case cached of
        Inl _ \<Rightarrow> []
      | Inr None \<Rightarrow> []
      | Inr (Some g) \<Rightarrow> fold (orphaned_step filePaths) (edges g) [])"

text \<open>A template string prints a missing property as \<^verbatim>\<open>undefined\<close>.\<close>

definition template :: "string option \<Rightarrow> string" where
  "template v = (case v of None \<Rightarrow> ''undefined'' | Some s \<Rightarrow> s)"

definition post_error :: "post_env \<Rightarrow> lock_call list \<Rightarrow> exn \<Rightarrow> post_response" where
  "post_error env calls e =
     (case catch_payload (pe_retry_at env) e of
        (c, p) \<Rightarrow> \<lparr>http_status = c, body = PostError p, lock_calls = calls\<rparr>)"

definition bad_request :: post_response where
  "bad_request = \<lparr>http_status = 400, body = PostError missing_required_fields, lock_calls = []\<rparr>"

definition post_open ::
  "post_env \<Rightarrow> post_request \<Rightarrow> string \<Rightarrow> string \<Rightarrow> string list \<Rightarrow> post_response" where
  "post_open env req repoUrl branch filePaths =
     (if (case (pr_new_repo_head req, pr_agent_head req) of
            (Some newRepoHead, Some agentHead) \<Rightarrow> newRepoHead = agentHead
          | _ \<Rightarrow> False)
      then
        \<lparr>http_status = 400,
         body = PostResult
           \<lparr>success = False, result_locks = None, orphaned_dependencies = None,
            post_orchestration =
              \<lparr>action = PUSH, command = Some ''git push'',
               reason = ''You need to push your changes to advance the repo''\<rparr>,
            pull_metadata = None\<rparr>,
         lock_calls = []\<rparr>
      else
        (let u = userId (pr_headers req);
             calls = [ReleaseLocks repoUrl branch filePaths u]
         in case pe_releaseLocks env repoUrl branch filePaths u of
              Inl e \<Rightarrow> post_error env calls e
            | Inr _ \<Rightarrow>
                \<lparr>http_status = 200,
                 body = PostResult
                   \<lparr>success = True, result_locks = None,
                    orphaned_dependencies =
                      Some (orphanedDependencies filePaths (pe_cached_graph env)),
                    post_orchestration =
                      \<lparr>action = PROCEED, command = None,
                       reason = ''Locks released successfully''\<rparr>,
                    pull_metadata = None\<rparr>,
                 lock_calls = calls\<rparr>))"

definition post_writing ::
  "post_env \<Rightarrow> post_request \<Rightarrow> string \<Rightarrow> string \<Rightarrow> string list \<Rightarrow> string \<Rightarrow> string
     \<Rightarrow> post_response" where
  "post_writing env req repoUrl branch filePaths msg repoHead =
     (case pr_agent_head req of
        None \<Rightarrow> bad_request
      | Some agentHead \<Rightarrow>
          if agentHead \<noteq> repoHead then
            \<lparr>http_status = 200,
             body = PostResult
               \<lparr>success = False, result_locks = None, orphaned_dependencies = None,
                post_orchestration =
                  \<lparr>action = PULL, command = Some ''git pull --rebase'',
                   reason = ''Your local repo is behind remote''\<rparr>,
                pull_metadata = Some (repoHead, agentHead)\<rparr>,
             lock_calls = []\<rparr>
          else
            (let inp = \<lparr>ai_repoUrl = repoUrl, ai_branch = branch, ai_filePaths = filePaths,
                        ai_userId = userId (pr_headers req),
                        ai_userName = userName (pr_headers req),
                        ai_status = ST_WRITING, ai_message = msg, ai_agentHead = agentHead\<rparr>;
                 calls = [AcquireLocks inp]
             in case pe_acquireLocks env inp of
                  Inl e \<Rightarrow> post_error env calls e
                | Inr (AcquireFailed r f u) \<Rightarrow>
                    \<lparr>http_status = 200,
                     body = PostResult
                       \<lparr>success = False, result_locks = None, orphaned_dependencies = None,
                        post_orchestration =
                          \<lparr>action = SWITCH_TASK, command = None,
                           reason = template r @ '': '' @ template f @ '' locked by ''
                                    @ template u\<rparr>,
                        pull_metadata = None\<rparr>,
                     lock_calls = calls\<rparr>
                | Inr (AcquireOk ls) \<Rightarrow>
                    \<lparr>http_status = 200,
                     body = PostResult
                       \<lparr>success = True, result_locks = Some ls, orphaned_dependencies = None,
                        post_orchestration =
                          \<lparr>action = PROCEED, command = None,
                           reason = ''Locks acquired successfully''\<rparr>,
                        pull_metadata = None\<rparr>,
                     lock_calls = calls\<rparr>))"

definition post_reading :: post_response where
  "post_reading =
     \<lparr>http_status = 200,
      body = PostResult
        \<lparr>success = True, result_locks = None, orphaned_dependencies = None,
         post_orchestration =
           \<lparr>action = PROCEED, command = None, reason = ''Reading status recorded''\<rparr>,
         pull_metadata = None\<rparr>,
      lock_calls = []\<rparr>"

definition post_status :: "post_env \<Rightarrow> post_request \<Rightarrow> post_response" where
  "post_status env req =
     (if pr_missing req \<noteq> [] then bad_request
      else case (pr_repo_url req, pr_branch req, pr_message req, pr_status req,
                 pr_file_paths req) of
        (Some repoUrl, Some branch, Some msg, Some st, Some filePaths) \<Rightarrow>
          if filePaths = [] then bad_request
          else
            (case pe_repo_head env of
               Inl e \<Rightarrow> post_error env [] e
             | Inr repoHead \<Rightarrow>
                 (case st of
                    OPEN \<Rightarrow> post_open env req repoUrl branch filePaths
                  | ST_WRITING \<Rightarrow> post_writing env req repoUrl branch filePaths msg repoHead
                  | ST_READING \<Rightarrow> post_reading))
      | _ \<Rightarrow> bad_request)"

subsection \<open>The routes in the words of the specification\<close>

text \<open>
  The definitions of this subsection follow the specification, not the source; the
  theorems compare the routes with them. \<open>spec_lock_type\<close> is the lock type overlay (a
  requested path is \<^verbatim>\<open>DIRECT\<close>, a path adjacent to a requested one in the undirected
  graph is \<^verbatim>\<open>NEIGHBOR\<close>, direct wins), \<open>spec_orphaned\<close> the set of orphaned dependencies
  and \<open>header_preference\<close> the identity rule: the first header if it has a non-empty
  value, else the second, else a literal. \<open>edges_of\<close> reads the edges of the cached graph,
  none when there is no graph.
\<close>

definition edges_of :: "DependencyGraph option outcome \<Rightarrow> GraphEdge list" where
  "edges_of cached = (case cached of Inr (Some g) \<Rightarrow> edges g | _ \<Rightarrow> [])"

definition adjacent :: "GraphEdge list \<Rightarrow> string list \<Rightarrow> string \<Rightarrow> bool" where
  "adjacent es requested p =
     list_ex (\<lambda>e. (source e = p \<and> target e \<in> set requested) \<or>
                   (target e = p \<and> source e \<in> set requested)) es"

definition spec_lock_type :: "GraphEdge list \<Rightarrow> string list \<Rightarrow> string \<Rightarrow> lock_type option" where
  "spec_lock_type es requested p =
     (if p \<in> set requested then Some DIRECT
      else if adjacent es requested p then Some NEIGHBOR else None)"

definition spec_orphaned :: "GraphEdge list \<Rightarrow> string list \<Rightarrow> string set" where
  "spec_orphaned es released =
     {g. \<exists>e \<in> set es. source e = g \<and> target e \<in> set released \<and> g \<notin> set released}"

definition truthy :: "string option \<Rightarrow> bool" where
  "truthy v = (case v of None \<Rightarrow> False | Some s \<Rightarrow> s \<noteq> [])"

definition header_preference :: "headers \<Rightarrow> string \<Rightarrow> string \<Rightarrow> string \<Rightarrow> string" where
  "header_preference h first second lit =
     (if truthy (h first) then the (h first)
      else if truthy (h second) then the (h second) else lit)"

subsection \<open>Well-formed requests and the fields of a response\<close>

text \<open>
  A request that passes the validation of its route, and the projections of a
  \<^verbatim>\<open>check_status\<close> response used to state its outcome.
\<close>

definition mk_check_request ::
  "string \<Rightarrow> string \<Rightarrow> string list \<Rightarrow> string \<Rightarrow> headers \<Rightarrow> check_request" where
  "mk_check_request repoUrl branch filePaths agentHead h =
     \<lparr>cr_missing = [], cr_repo_url = Some repoUrl, cr_branch = Some branch,
      cr_file_paths = Some filePaths, cr_agent_head = Some agentHead, cr_headers = h\<rparr>"

definition mk_post_request ::
  "string \<Rightarrow> string \<Rightarrow> string list \<Rightarrow> coordination_status \<Rightarrow> string \<Rightarrow> string option
     \<Rightarrow> string option \<Rightarrow> headers \<Rightarrow> post_request" where
  "mk_post_request repoUrl branch filePaths st msg agentHead newRepoHead h =
     \<lparr>pr_missing = [], pr_repo_url = Some repoUrl, pr_branch = Some branch,
      pr_file_paths = Some filePaths, pr_status = Some st, pr_message = Some msg,
      pr_agent_head = agentHead, pr_new_repo_head = newRepoHead, pr_headers = h\<rparr>"

definition top_status :: "check_response \<Rightarrow> check_top_status option" where
  "top_status resp = (case snd resp of CheckResult r \<Rightarrow> Some (cs_status r) | CheckError _ \<Rightarrow> None)"

definition top_action :: "check_response \<Rightarrow> action option" where
  "top_action resp =
     (case snd resp of CheckResult r \<Rightarrow> Some (action (cs_orchestration r)) | CheckError _ \<Rightarrow> None)"

subsection \<open>Concrete requests and environments\<close>

text \<open>
  The inputs at which the theorems are instantiated: the lock, graph and headers of the
  route tests, a registry whose release succeeds and whose acquire reports a conflict, and
  an environment where the read of the cached graph throws.
\<close>

definition ex_lock_a :: LockEntry where
  "ex_lock_a = \<lparr>file_path = ''src/a.ts'', user_id = ''user-1'', user_name = ''User One'',
     status = WRITING, agent_head = ''remote-head'', message = ''work'',
     timestamp = 100, expiry = 200\<rparr>"

definition ex_all_locks :: "string \<rightharpoonup> LockEntry" where
  "ex_all_locks = map_of [(''src/a.ts'', ex_lock_a)]"

definition ex_headers_user2 :: headers where
  "ex_headers_user2 = map_of [(''x-github-user'', ''user-2'')]"

definition ex_no_headers :: headers where
  "ex_no_headers = map_of []"

definition ex_check_env :: check_env where
  "ex_check_env = \<lparr>ce_repo_head = Inr ''remote-head'', ce_locks = Inr ex_all_locks,
     ce_cached_graph = Inr None, ce_retry_at = None\<rparr>"

definition ex_check_env_graph_fails :: check_env where
  "ex_check_env_graph_fails = \<lparr>ce_repo_head = Inr ''remote-head'', ce_locks = Inr ex_all_locks,
     ce_cached_graph = Inl (OtherError ''KV unavailable''), ce_retry_at = None\<rparr>"

definition ex_release_ok :: "string \<Rightarrow> string \<Rightarrow> string list \<Rightarrow> string \<Rightarrow> bool outcome" where
  "ex_release_ok repoUrl branch filePaths u = Inr True"

definition ex_acquire_conflict :: "acquire_input \<Rightarrow> lock_result outcome" where
  "ex_acquire_conflict inp =
     Inr (AcquireFailed (Some ''FILE_CONFLICT'') (Some ''src/readme.ts'') (Some ''user2''))"

definition ex_graph :: DependencyGraph where
  "ex_graph = \<lparr>nodes = [],
     edges = [\<lparr>source = ''src/app.ts'', target = ''src/auth.ts''\<rparr>,
              \<lparr>source = ''src/auth.ts'', target = ''src/util.ts''\<rparr>],
     locks = map_of [], version = ''v1'',
     metadata = \<lparr>generated_at = 1, files_processed = 2, edges_found = 2\<rparr>\<rparr>"

definition ex_post_env :: post_env where
  "ex_post_env = \<lparr>pe_repo_head = Inr ''remote-head'', pe_releaseLocks = ex_release_ok,
     pe_acquireLocks = ex_acquire_conflict, pe_cached_graph = Inr (Some ex_graph),
     pe_retry_at = None\<rparr>"

text \<open>
  A registry with locks on a requested file, on a requested file that is also adjacent to
  another requested one, on a file that a requested file imports, on a file that imports a
  requested file and on an unrelated file, together with the cached graph of these edges.
\<close>

definition ex_lock_on :: "string \<Rightarrow> string \<Rightarrow> LockEntry" where
  "ex_lock_on p u = \<lparr>file_path = p, user_id = u, user_name = u, status = WRITING,
     agent_head = ''remote-head'', message = ''work'', timestamp = 100, expiry = 200\<rparr>"

definition ex_neighbor_locks :: "string \<rightharpoonup> LockEntry" where
  "ex_neighbor_locks =
     map_of [(''src/a.ts'', ex_lock_on ''src/a.ts'' ''user-1''),
             (''src/b.ts'', ex_lock_on ''src/b.ts'' ''user-1''),
             (''src/dep.ts'', ex_lock_on ''src/dep.ts'' ''neighbor-user''),
             (''src/user.ts'', ex_lock_on ''src/user.ts'' ''neighbor-user''),
             (''src/far.ts'', ex_lock_on ''src/far.ts'' ''far-user'')]"

definition ex_neighbor_graph :: DependencyGraph where
  "ex_neighbor_graph = \<lparr>nodes = [],
     edges = [\<lparr>source = ''src/a.ts'', target = ''src/dep.ts''\<rparr>,
              \<lparr>source = ''src/user.ts'', target = ''src/a.ts''\<rparr>,
              \<lparr>source = ''src/a.ts'', target = ''src/b.ts''\<rparr>,
              \<lparr>source = ''src/far.ts'', target = ''src/other.ts''\<rparr>],
     locks = map_of [], version = ''v1'',
     metadata = \<lparr>generated_at = 1, files_processed = 4, edges_found = 4\<rparr>\<rparr>"

definition ex_check_env_neighbors :: check_env where
  "ex_check_env_neighbors = \<lparr>ce_repo_head = Inr ''remote-head'',
     ce_locks = Inr ex_neighbor_locks, ce_cached_graph = Inr (Some ex_neighbor_graph),
     ce_retry_at = None\<rparr>"

definition returned_lock_types :: "check_response \<Rightarrow> (string \<times> lock_type) list" where
  "returned_lock_types resp =
     (case snd resp of
        CheckResult r \<Rightarrow> map (\<lambda>pl. (fst pl, lock_type (snd pl))) (cs_locks r)
      | CheckError _ \<Rightarrow> [])"

section \<open>MCP tool-call adapter\<close>

text \<open>
  Values of type \<^verbatim>\<open>unknown\<close> (tool arguments, response payloads) are JSON values. An object
  is an association list; \<^verbatim>\<open>JSON.parse\<close> yields objects with unique keys. A string is
  a list of code units below 256 (Basic Latin and Latin-1 Supplement). On these,
  \<^verbatim>\<open>String.prototype.trim\<close> strips the white space and line terminators U+0009 to U+000D,
  U+0020 and U+00A0, and \<^verbatim>\<open>toLowerCase\<close> adds 32 to the capitals U+0041 to U+005A, U+00C0
  to U+00D6 and U+00D8 to U+00DE and leaves the rest.
\<close>

datatype json =
    JNull | JBool bool | JNum rat | JStr string | JArr "json list"
  | JObj "(string \<times> json) list"

definition is_space :: "char \<Rightarrow> bool" where
  "is_space c =
     (c \<in> set [CHR 0x09, CHR 0x0A, CHR 0x0B, CHR 0x0C, CHR 0x0D, CHR 0x20, CHR 0xA0])"

definition trim :: "string \<Rightarrow> string" where
  "trim s = rev (dropWhile is_space (rev (dropWhile is_space s)))"

definition lower_char :: "char \<Rightarrow> char" where
  "lower_char c =
     (let n = (of_char c :: nat)
      in if (65 \<le> n \<and> n \<le> 90) \<or> (192 \<le> n \<and> n \<le> 214) \<or> (216 \<le> n \<and> n \<le> 222)
         then char_of (n + 32) else c)"

definition toLowerCase :: "string \<Rightarrow> string" where
  "toLowerCase s = map lower_char s"

fun startsWith :: "string \<Rightarrow> string \<Rightarrow> bool" where
  "startsWith s [] = True"
| "startsWith [] (p # ps) = False"
| "startsWith (c # cs) (p # ps) = (c = p \<and> startsWith cs ps)"

fun str_includes :: "string \<Rightarrow> string \<Rightarrow> bool" where
  "str_includes [] needle = (needle = [])"
| "str_includes (c # cs) needle = (startsWith (c # cs) needle \<or> str_includes cs needle)"

definition DEFAULT_MCP_BRANCH :: string where
  "DEFAULT_MCP_BRANCH = ''master''"

definition FALLBACK_MCP_BRANCH :: string where
  "FALLBACK_MCP_BRANCH = ''main''"

definition STANDARDIZED_REPO_URL :: string where
  "STANDARDIZED_REPO_URL = ''https://github.com/luljaj/RelayDevFest''"

type_synonym args = "(string \<times> json) list"

definition normalizeUsername :: "json option \<Rightarrow> string" where
  "normalizeUsername v =
     (case v of
        Some (JStr s) \<Rightarrow> (if trim s = [] then ''anonymous'' else trim s)
      | _ \<Rightarrow> ''anonymous'')"

definition resolveBranch :: "json option \<Rightarrow> string \<times> bool" where
  "resolveBranch v =
     (case v of
        Some (JStr s) \<Rightarrow> (if trim s \<noteq> [] then (trim s, True) else (DEFAULT_MCP_BRANCH, False))
      | _ \<Rightarrow> (DEFAULT_MCP_BRANCH, False))"

fun firstMessage :: "(string \<times> json) list \<Rightarrow> string list \<Rightarrow> string option" where
  "firstMessage payload [] = None"
| "firstMessage payload (key' # keys) =
     (case map_of payload key' of
        Some (JStr v) \<Rightarrow> (if trim v \<noteq> [] then Some v else firstMessage payload keys)
      | _ \<Rightarrow> firstMessage payload keys)"

definition extractErrorMessage :: "json \<Rightarrow> string \<Rightarrow> string" where
  "extractErrorMessage payload fallback =
     (case payload of
        JObj props \<Rightarrow>
          (case firstMessage props [''details'', ''error'', ''reason''] of
             Some v \<Rightarrow> v
           | None \<Rightarrow> fallback)
      | _ \<Rightarrow> fallback)"

definition shouldRetryOnMissingBranchReference :: "nat \<times> json \<Rightarrow> bool" where
  "shouldRetryOnMissingBranchReference response =
     (if fst response \<noteq> 404 \<and> fst response \<noteq> 500 then False
      else
        (let details = toLowerCase (extractErrorMessage (snd response) '''')
         in str_includes details ''git/refs#get-a-reference''
            \<or> str_includes details ''reference does not exist''
            \<or> str_includes details ''not found''))"

definition ensureRecord :: "json \<Rightarrow> json" where
  "ensureRecord v = (case v of JObj props \<Rightarrow> JObj props | _ \<Rightarrow> JObj [])"

text \<open>One \<^verbatim>\<open>callInternalApi\<close>: the route, the JSON body and the user name of both headers.\<close>

record api_call =
  ac_path :: string
  ac_body :: "(string \<times> json) list"
  ac_username :: string

text \<open>
  The internal endpoint: the \<^verbatim>\<open>fetch\<close> either throws (network failure, the 5 s abort)
  or yields an HTTP status with the parsed payload.
\<close>

type_synonym internal_api = "api_call \<Rightarrow> (nat \<times> json) outcome"

text \<open>\<^verbatim>\<open>JSON.stringify\<close> leaves out a property whose value is \<^verbatim>\<open>undefined\<close>.\<close>

definition json_prop :: "string \<Rightarrow> json option \<Rightarrow> (string \<times> json) list" where
  "json_prop k v = (case v of None \<Rightarrow> [] | Some j \<Rightarrow> [(k, j)])"

definition check_call :: "args \<Rightarrow> string \<Rightarrow> api_call" where
  "check_call a branch =
     \<lparr>ac_path = ''/api/check_status'',
      ac_body = json_prop ''file_paths'' (map_of a ''file_paths'')
                @ json_prop ''agent_head'' (map_of a ''agent_head'')
                @ [(''repo_url'', JStr STANDARDIZED_REPO_URL), (''branch'', JStr branch)],
      ac_username = normalizeUsername (map_of a ''username'')\<rparr>"

definition nullish :: "json option \<Rightarrow> json" where
  "nullish v = (case v of None \<Rightarrow> JNull | Some j \<Rightarrow> j)"

definition post_call :: "args \<Rightarrow> string \<Rightarrow> api_call" where
  "post_call a branch =
     \<lparr>ac_path = ''/api/post_status'',
      ac_body = json_prop ''file_paths'' (map_of a ''file_paths'')
                @ json_prop ''status'' (map_of a ''status'')
                @ json_prop ''message'' (map_of a ''message'')
                @ json_prop ''agent_head'' (map_of a ''agent_head'')
                @ [(''repo_url'', JStr STANDARDIZED_REPO_URL), (''branch'', JStr branch),
                   (''new_repo_head'', nullish (map_of a ''new_repo_head''))],
      ac_username = normalizeUsername (map_of a ''username'')\<rparr>"

text \<open>The decimal digits that a template string prints for a status code or an index.\<close>

fun digit :: "nat \<Rightarrow> char" where
  "digit n = char_of (48 + n)"

function decimal :: "nat \<Rightarrow> string" where
  "decimal n = (if n < 10 then [digit n] else decimal (n div 10) @ [digit (n mod 10)])"
  by pat_completeness auto

termination
  by (relation "measure (\<lambda>n. n)") auto

definition orchestration_json :: "string \<Rightarrow> string \<Rightarrow> json" where
  "orchestration_json a r =
     JObj [(''type'', JStr ''orchestration_command''), (''action'', JStr a),
           (''command'', JNull), (''reason'', JStr r)]"

definition offline_check :: "string \<Rightarrow> string \<Rightarrow> string \<Rightarrow> json" where
  "offline_check warning a r =
     JObj [(''status'', JStr ''OFFLINE''), (''repo_head'', JStr ''unknown''), (''locks'', JObj []),
           (''warnings'', JArr [JStr warning]), (''orchestration'', orchestration_json a r)]"

definition failed_post :: "string \<Rightarrow> string \<Rightarrow> json" where
  "failed_post a r = JObj [(''success'', JBool False), (''orchestration'', orchestration_json a r)]"

text \<open>The error mapping applied to the response that the adapter keeps.\<close>

definition check_tool_result :: "nat \<times> json \<Rightarrow> json" where
  "check_tool_result response =
     (let st = fst response; payload = snd response in
      if st = 429 then
        offline_check ''RATE_LIMITED: GitHub API quota exhausted on Vercel'' ''STOP''
          (extractErrorMessage payload ''Rate limited'')
      else if st = 400 then
        (let details = extractErrorMessage payload ''Validation error''
         in offline_check (''REQUEST_REJECTED: '' @ details) ''STOP''
              (''Validation error: '' @ details))
      else if st \<ge> 400 then
        (let details = extractErrorMessage payload (''HTTP '' @ decimal st)
         in offline_check (''HTTP_ERROR: '' @ details) ''STOP''
              (''check_status failed ('' @ decimal st @ ''): '' @ details))
      else ensureRecord payload)"

definition has_orchestration :: "json \<Rightarrow> bool" where
  "has_orchestration payload =
     (case payload of
        JObj props \<Rightarrow> (case map_of props ''orchestration'' of Some (JObj _) \<Rightarrow> True | _ \<Rightarrow> False)
      | _ \<Rightarrow> False)"

definition post_tool_result :: "nat \<times> json \<Rightarrow> json" where
  "post_tool_result response =
     (let st = fst response; payload = snd response in
      if st = 429 then failed_post ''STOP'' ''Rate limited - retry later''
      else if st = 400 then
        (if has_orchestration payload then ensureRecord payload
         else failed_post ''STOP''
                (''Validation error: '' @ extractErrorMessage payload ''Validation error''))
      else if st = 409 then failed_post ''WAIT'' ''Conflict: File locked by another user''
      else if st \<ge> 400 then
        failed_post ''STOP''
          (''post_status failed ('' @ decimal st @ ''): ''
           @ extractErrorMessage payload (''HTTP '' @ decimal st))
      else ensureRecord payload)"

definition check_unreachable :: json where
  "check_unreachable =
     offline_check ''OFFLINE_MODE: Vercel Unreachable'' ''SWITCH_TASK'' ''System Offline''"

definition post_unreachable :: json where
  "post_unreachable = failed_post ''STOP'' ''Vercel Offline - Cannot Acquire Lock''"

text \<open>
  \<^verbatim>\<open>callCheckStatusTool\<close> and \<^verbatim>\<open>callPostStatusTool\<close> have the same shape: they differ in
  the call they build, the error mapping and the envelope of the \<^verbatim>\<open>catch\<close> block. The
  result is the tool's structured content together with the internal calls made, in order.
\<close>

definition call_tool ::
  "(args \<Rightarrow> string \<Rightarrow> api_call) \<Rightarrow> (nat \<times> json \<Rightarrow> json) \<Rightarrow> json \<Rightarrow> internal_api \<Rightarrow> args
     \<Rightarrow> json \<times> api_call list" where
  "call_tool mk finish unreachable api a =
     (let branchResolution = resolveBranch (map_of a ''branch'');
          branch = fst branchResolution;
          wasProvided = snd branchResolution;
          first = mk a branch
      in case api first of
           Inl _ \<Rightarrow> (unreachable, [first])
         | Inr response \<Rightarrow>
             if \<not> wasProvided \<and> shouldRetryOnMissingBranchReference response
                \<and> branch \<noteq> FALLBACK_MCP_BRANCH
             then
               (let second = mk a FALLBACK_MCP_BRANCH
                in case api second of
                     Inl _ \<Rightarrow> (unreachable, [first, second])
                   | Inr response2 \<Rightarrow> (finish response2, [first, second]))
             else (finish response, [first]))"

definition callCheckStatusTool :: "internal_api \<Rightarrow> args \<Rightarrow> json \<times> api_call list" where
  "callCheckStatusTool = call_tool check_call check_tool_result check_unreachable"

definition callPostStatusTool :: "internal_api \<Rightarrow> args \<Rightarrow> json \<times> api_call list" where
  "callPostStatusTool = call_tool post_call post_tool_result post_unreachable"

subsection \<open>Observing the adapter\<close>

text \<open>
  The branch that each internal call forwards, and the adapter in the words of the
  specification. The agent supplies a branch when the \<^verbatim>\<open>branch\<close> argument is a string with
  something other than white space in it; the branch is that string, trimmed. An omitted
  argument, a value that is not a string and a blank string all count as no branch. The
  branch-not-found signal is an answer (not a thrown \<^verbatim>\<open>fetch\<close>) of status 404 or 500 whose
  error text, the first non-blank string among \<^verbatim>\<open>details\<close>, \<^verbatim>\<open>error\<close> and \<^verbatim>\<open>reason\<close>,
  contains in any letter case one of the three phrases by which the adapter recognises a
  missing Git reference. \<open>spec_branches\<close> lists the branches of the internal calls that the
  specification asks for, and \<open>spec_result\<close> maps the outcome of one internal call to the
  tool result.
\<close>

definition forwarded_branches :: "api_call list \<Rightarrow> json option list" where
  "forwarded_branches calls = map (\<lambda>c. map_of (ac_body c) ''branch'') calls"

definition supplied_branch :: "args \<Rightarrow> string option" where
  "supplied_branch a =
     (case map_of a ''branch'' of
        Some (JStr s) \<Rightarrow> (if trim s = [] then None else Some (trim s))
      | _ \<Rightarrow> None)"

definition mentions_missing_reference :: "string \<Rightarrow> bool" where
  "mentions_missing_reference m =
     (str_includes (toLowerCase m) ''git/refs#get-a-reference''
      \<or> str_includes (toLowerCase m) ''reference does not exist''
      \<or> str_includes (toLowerCase m) ''not found'')"

definition branch_not_found_signal :: "(nat \<times> json) outcome \<Rightarrow> bool" where
  "branch_not_found_signal out =
     (case out of
        Inl _ \<Rightarrow> False
      | Inr response \<Rightarrow>
          (fst response = 404 \<or> fst response = 500)
          \<and> mentions_missing_reference (extractErrorMessage (snd response) ''''))"

definition spec_branches :: "(args \<Rightarrow> string \<Rightarrow> api_call) \<Rightarrow> internal_api \<Rightarrow> args \<Rightarrow> string list" where
  "spec_branches mk api a =
     (case supplied_branch a of
        Some b \<Rightarrow> [b]
      | None \<Rightarrow>
          if branch_not_found_signal (api (mk a ''master'')) then [''master'', ''main'']
          else [''master''])"

definition spec_result :: "(nat \<times> json \<Rightarrow> json) \<Rightarrow> json \<Rightarrow> (nat \<times> json) outcome \<Rightarrow> json" where
  "spec_result finish unreachable out =
     (case out of Inl _ \<Rightarrow> unreachable | Inr response \<Rightarrow> finish response)"

subsection \<open>A concrete exchange\<close>

text \<open>
  The exchange of the MCP route test: the internal endpoint answers a call on
  \<^verbatim>\<open>master\<close> with status 500 and a missing-reference message, and any other call with a
  \<^verbatim>\<open>check_status\<close> result.
\<close>

definition ex_branch_missing :: json where
  "ex_branch_missing =
     JObj [(''error'', JStr ''Internal server error''),
           (''details'',
            JStr ''Not Found - https://docs.github.com/rest/git/refs#get-a-reference'')]"

definition ex_check_ok :: json where
  "ex_check_ok =
     JObj [(''status'', JStr ''OK''), (''repo_head'', JStr ''def456''), (''locks'', JObj []),
           (''warnings'', JArr []),
           (''orchestration'', JObj [(''type'', JStr ''orchestration_command''),
              (''action'', JStr ''PROCEED''), (''command'', JNull), (''reason'', JStr '''')])]"

definition ex_api :: internal_api where
  "ex_api c =
     (if map_of (ac_body c) ''branch'' = Some (JStr ''master'')
      then Inr (500, ex_branch_missing) else Inr (200, ex_check_ok))"

definition ex_args :: args where
  "ex_args = [(''username'', JStr ''luka''), (''file_paths'', JArr [JStr ''README.md'']),
              (''agent_head'', JStr ''def456''),
              (''repo_url'', JStr ''https://github.com/lukauljaj/DevFest'')]"

definition ex_args_main :: args where
  "ex_args_main = ex_args @ [(''branch'', JStr ''main'')]"

text \<open>
  Further endpoints: one that answers every call with a result, one that answers every
  call with status 200 and the missing-reference message, one whose \<^verbatim>\<open>fetch\<close> always
  throws, one that answers status 500 with another message, and one that answers a call
  on \<^verbatim>\<open>master\<close> with status 404 and a missing-reference message in \<^verbatim>\<open>error\<close> behind a
  blank \<^verbatim>\<open>details\<close>, and throws on any other call. Further arguments: a blank branch, a
  branch that is not a string, the branch \<^verbatim>\<open>master\<close> supplied with surrounding spaces,
  and the arguments of a \<^verbatim>\<open>post_status\<close> call without a branch.
\<close>

definition ex_api_ok :: internal_api where
  "ex_api_ok c = Inr (200, ex_check_ok)"

definition ex_api_ok_missing :: internal_api where
  "ex_api_ok_missing c = Inr (200, ex_branch_missing)"

definition ex_api_down :: internal_api where
  "ex_api_down c = Inl (OtherError ''fetch failed'')"

definition ex_api_boom :: internal_api where
  "ex_api_boom c = Inr (500, JObj [(''error'', JStr ''Internal server error''), (''details'', JStr ''boom'')])"

definition ex_api_404 :: internal_api where
  "ex_api_404 c =
     (if map_of (ac_body c) ''branch'' = Some (JStr ''master'')
      then Inr (404, JObj [(''details'', JStr ''  ''), (''error'', JStr ''Reference does NOT exist'')])
      else Inl (OtherError ''fetch failed''))"

definition ex_args_blank :: args where
  "ex_args_blank = ex_args @ [(''branch'', JStr [CHR 0xA0, CHR 0x20])]"

definition ex_args_null :: args where
  "ex_args_null = ex_args @ [(''branch'', JNull)]"

definition ex_args_master :: args where
  "ex_args_master = ex_args @ [(''branch'', JStr '' master '')]"

definition ex_post_args :: args where
  "ex_post_args = [(''username'', JStr ''luka''), (''file_paths'', JArr [JStr ''README.md'']),
                   (''status'', JStr ''WRITING''), (''message'', JStr ''edit''),
                   (''agent_head'', JStr ''def456'')]"

section \<open>Activity log\<close>

text \<open>
  The fields of \<^verbatim>\<open>CoordinationActivityEvent\<close> and \<^verbatim>\<open>PublishActivityInput\<close> carry a prefix,
  since they share their names with those of \<open>LockEntry\<close>. A time stamp given to
  \<^verbatim>\<open>publishActivityEvents\<close> is a natural number of milliseconds.
\<close>

record CoordinationActivityEvent =
  ev_id :: string
  ev_file_path :: string
  ev_user_id :: string
  ev_user_name :: string
  ev_status :: coordination_status
  ev_message :: string
  ev_timestamp :: rat

record PublishActivityInput =
  pa_repoUrl :: string
  pa_branch :: string
  pa_filePaths :: "string list"
  pa_userId :: string
  pa_userName :: string
  pa_status :: coordination_status
  pa_message :: string
  pa_timestamp :: "nat option"

definition DEFAULT_ACTIVITY_LIMIT :: int where
  "DEFAULT_ACTIVITY_LIMIT = 120"

definition MAX_ACTIVITY_RETENTION :: nat where
  "MAX_ACTIVITY_RETENTION = 500"

text \<open>
  The list primitives of the key/value store, with the meaning they have in Redis:
  \<^verbatim>\<open>LPUSH key v1 ... vn\<close> puts the values at the head one after the other, \<^verbatim>\<open>LTRIM key 0 k\<close>
  keeps the first \<open>k + 1\<close> elements and \<^verbatim>\<open>LRANGE key 0 k\<close> reads them. A key without a list
  reads as the empty list. A stored value is either text that \<^verbatim>\<open>JSON.parse\<close> rejects or a
  JSON value. The client may lack a primitive, which the functions test for.
\<close>

datatype raw_value = Unparsable string | Parsed json

type_synonym kv_lists = "string \<Rightarrow> raw_value list"

record list_client =
  has_lpush :: bool
  has_ltrim :: bool
  has_lrange :: bool

definition lpush :: "string \<Rightarrow> raw_value list \<Rightarrow> kv_lists \<Rightarrow> kv_lists" where
  "lpush key' vals st = st(key' := rev vals @ st key')"

definition ltrim0 :: "string \<Rightarrow> nat \<Rightarrow> kv_lists \<Rightarrow> kv_lists" where
  "ltrim0 key' stop st = st(key' := take (Suc stop) (st key'))"

definition lrange0 :: "string \<Rightarrow> nat \<Rightarrow> kv_lists \<Rightarrow> raw_value list" where
  "lrange0 key' stop st = take (Suc stop) (st key')"

text \<open>\<^verbatim>\<open>normalizeRepoUrl\<close> belongs to \<^verbatim>\<open>lib/github\<close> and is a parameter here.\<close>

definition getActivityKey :: "(string \<Rightarrow> string) \<Rightarrow> string \<Rightarrow> string \<Rightarrow> string" where
  "getActivityKey normalizeRepoUrl repoUrl branch =
     ''activity:'' @ normalizeRepoUrl repoUrl @ '':''
       @ (if trim branch = [] then ''main'' else trim branch)"

definition status_name :: "coordination_status \<Rightarrow> string" where
  "status_name s =
     (case s of OPEN \<Rightarrow> ''OPEN'' | ST_READING \<Rightarrow> ''READING'' | ST_WRITING \<Rightarrow> ''WRITING'')"

definition parse_status :: "json option \<Rightarrow> coordination_status option" where
  "parse_status v =
     (case v of
        Some (JStr s) \<Rightarrow>
          (if s = ''OPEN'' then Some OPEN
           else if s = ''READING'' then Some ST_READING
           else if s = ''WRITING'' then Some ST_WRITING else None)
      | _ \<Rightarrow> None)"

definition stringify_event :: "CoordinationActivityEvent \<Rightarrow> raw_value" where
  "stringify_event e =
     Parsed (JObj [(''id'', JStr (ev_id e)), (''file_path'', JStr (ev_file_path e)),
                   (''user_id'', JStr (ev_user_id e)), (''user_name'', JStr (ev_user_name e)),
                   (''status'', JStr (status_name (ev_status e))),
                   (''message'', JStr (ev_message e)), (''timestamp'', JNum (ev_timestamp e))])"

definition parseActivityEvent :: "raw_value \<Rightarrow> CoordinationActivityEvent option" where
  "parseActivityEvent raw =
     (case raw of
        Unparsable _ \<Rightarrow> None
      | Parsed (JObj c) \<Rightarrow>
          (case (map_of c ''id'', map_of c ''file_path'', map_of c ''user_id'',
                 map_of c ''user_name'', parse_status (map_of c ''status''),
                 map_of c ''message'', map_of c ''timestamp'') of
             (Some (JStr i), Some (JStr f), Some (JStr u), Some (JStr n), Some s,
              Some (JStr m), Some (JNum t)) \<Rightarrow>
               Some \<lparr>ev_id = i, ev_file_path = f, ev_user_id = u, ev_user_name = n,
                     ev_status = s, ev_message = m, ev_timestamp = t\<rparr>
           | _ \<Rightarrow> None)
      | Parsed _ \<Rightarrow> None)"

definition make_event ::
  "PublishActivityInput \<Rightarrow> nat \<Rightarrow> string \<times> nat \<Rightarrow> CoordinationActivityEvent" where
  "make_event inp ts fi =
     \<lparr>ev_id = decimal ts @ '':'' @ pa_userId inp @ '':'' @ status_name (pa_status inp) @ '':''
              @ fst fi @ '':'' @ decimal (snd fi),
      ev_file_path = fst fi, ev_user_id = pa_userId inp, ev_user_name = pa_userName inp,
      ev_status = pa_status inp, ev_message = pa_message inp, ev_timestamp = of_nat ts\<rparr>"

definition activity_events ::
  "PublishActivityInput \<Rightarrow> nat \<Rightarrow> CoordinationActivityEvent list" where
  "activity_events inp now =
     (let ts = (case pa_timestamp inp of None \<Rightarrow> now | Some t \<Rightarrow> t)
      in map (make_event inp ts) (zip (pa_filePaths inp) [0 ..< length (pa_filePaths inp)]))"

definition publishActivityEvents ::
  "list_client \<Rightarrow> (string \<Rightarrow> string) \<Rightarrow> nat \<Rightarrow> PublishActivityInput \<Rightarrow> kv_lists \<Rightarrow> kv_lists" where
  "publishActivityEvents client normalizeRepoUrl now inp st =
     (if pa_filePaths inp = [] then st
      else
        (let key' = getActivityKey normalizeRepoUrl (pa_repoUrl inp) (pa_branch inp)
         in if \<not> has_lpush client \<or> \<not> has_ltrim client then st
            else
              (let payloads = map stringify_event (activity_events inp now)
               in ltrim0 key' (MAX_ACTIVITY_RETENTION - 1) (lpush key' payloads st))))"

datatype js_number = Finite rat | NotFinite

definition safeLimit :: "js_number option \<Rightarrow> int" where
  "safeLimit limit =
     (case limit of
        None \<Rightarrow> max 1 \<lfloor>of_int DEFAULT_ACTIVITY_LIMIT :: rat\<rfloor>
      | Some (Finite x) \<Rightarrow> max 1 \<lfloor>x\<rfloor>
      | Some NotFinite \<Rightarrow> DEFAULT_ACTIVITY_LIMIT)"

definition getRecentActivityEvents ::
  "list_client \<Rightarrow> (string \<Rightarrow> string) \<Rightarrow> string \<Rightarrow> string \<Rightarrow> js_number option \<Rightarrow> kv_lists
     \<Rightarrow> CoordinationActivityEvent list" where
  "getRecentActivityEvents client normalizeRepoUrl repoUrl branch limit st =
     (let key' = getActivityKey normalizeRepoUrl repoUrl branch
      in if \<not> has_lrange client then []
         else
           (let rawValues = lrange0 key' (nat (safeLimit limit - 1)) st;
                parsed = List.map_filter parseActivityEvent rawValues
            in rev parsed))"

subsection \<open>A concrete activity list\<close>

text \<open>
  A client with every list primitive, and one \<^verbatim>\<open>OPEN\<close> event published on an empty store.
\<close>

definition ex_client :: list_client where
  "ex_client = \<lparr>has_lpush = True, has_ltrim = True, has_lrange = True\<rparr>"

definition ex_normalizeRepoUrl :: "string \<Rightarrow> string" where
  "ex_normalizeRepoUrl u = u"

definition ex_empty_lists :: kv_lists where
  "ex_empty_lists key' = []"

definition ex_publish_input :: PublishActivityInput where
  "ex_publish_input =
     \<lparr>pa_repoUrl = ''https://github.com/a/b'', pa_branch = ''main'',
      pa_filePaths = [''src/auth.ts''], pa_userId = ''agent-user'', pa_userName = ''Agent User'',
      pa_status = OPEN, pa_message = ''done'', pa_timestamp = Some 12345\<rparr>"

definition ex_activity_lists :: kv_lists where
  "ex_activity_lists = publishActivityEvents ex_client ex_normalizeRepoUrl 0 ex_publish_input
     ex_empty_lists"

text \<open>
  A store whose list for the namespace holds one older event, as does the list of another
  branch; a publication for two file paths on it; a list that holds 500 events, numbered
  from the newest to the oldest, and a publication of one event on it.
\<close>

definition ex_old_event :: CoordinationActivityEvent where
  "ex_old_event =
     \<lparr>ev_id = ''100:user-1:WRITING:src/old.ts:0'', ev_file_path = ''src/old.ts'',
      ev_user_id = ''user-1'', ev_user_name = ''User One'', ev_status = ST_WRITING,
      ev_message = ''work'', ev_timestamp = 100\<rparr>"

definition ex_lists_one :: kv_lists where
  "ex_lists_one k =
     (if k = ''activity:https://github.com/a/b:main'' \<or> k = ''activity:https://github.com/a/b:dev''
      then [stringify_event ex_old_event] else [])"

definition ex_publish_two :: PublishActivityInput where
  "ex_publish_two =
     \<lparr>pa_repoUrl = ''https://github.com/a/b'', pa_branch = ''main'',
      pa_filePaths = [''src/a.ts'', ''src/b.ts''], pa_userId = ''agent-user'',
      pa_userName = ''Agent User'', pa_status = ST_WRITING, pa_message = ''edit'',
      pa_timestamp = Some 12345\<rparr>"

definition ex_event_a :: CoordinationActivityEvent where
  "ex_event_a =
     \<lparr>ev_id = ''12345:agent-user:WRITING:src/a.ts:0'', ev_file_path = ''src/a.ts'',
      ev_user_id = ''agent-user'', ev_user_name = ''Agent User'', ev_status = ST_WRITING,
      ev_message = ''edit'', ev_timestamp = 12345\<rparr>"

definition ex_event_b :: CoordinationActivityEvent where
  "ex_event_b =
     \<lparr>ev_id = ''12345:agent-user:WRITING:src/b.ts:1'', ev_file_path = ''src/b.ts'',
      ev_user_id = ''agent-user'', ev_user_name = ''Agent User'', ev_status = ST_WRITING,
      ev_message = ''edit'', ev_timestamp = 12345\<rparr>"

definition ex_lists_two :: kv_lists where
  "ex_lists_two = publishActivityEvents ex_client ex_normalizeRepoUrl 0 ex_publish_two ex_lists_one"

definition ex_numbered :: "nat \<Rightarrow> CoordinationActivityEvent" where
  "ex_numbered n =
     \<lparr>ev_id = decimal n, ev_file_path = ''src/old.ts'', ev_user_id = ''user-1'',
      ev_user_name = ''User One'', ev_status = ST_READING, ev_message = ''read'',
      ev_timestamp = of_nat (1000 - n)\<rparr>"

definition ex_full_lists :: kv_lists where
  "ex_full_lists k =
     (if k = ''activity:https://github.com/a/b:main''
      then map stringify_event (map ex_numbered [0 ..< 500]) else [])"

definition ex_event_open :: CoordinationActivityEvent where
  "ex_event_open =
     \<lparr>ev_id = ''12345:agent-user:OPEN:src/auth.ts:0'', ev_file_path = ''src/auth.ts'',
      ev_user_id = ''agent-user'', ev_user_name = ''Agent User'', ev_status = OPEN,
      ev_message = ''done'', ev_timestamp = 12345\<rparr>"

definition ex_full_after :: kv_lists where
  "ex_full_after =
     publishActivityEvents ex_client ex_normalizeRepoUrl 0 ex_publish_input ex_full_lists"

subsection \<open>The route and the activity log\<close>

text \<open>
  The activity lists after a request to the \<^verbatim>\<open>post_status\<close> route. The handler calls the
  head of the repository, the lock registry and the graph service. It imports nothing of
  \<^verbatim>\<open>lib/activity\<close> and makes no list call, so the lists after a request are the lists before
  it, whatever the request and its outcome.
\<close>

definition post_succeeded :: "post_response \<Rightarrow> bool" where
  "post_succeeded resp = (case body resp of PostResult r \<Rightarrow> success r | PostError _ \<Rightarrow> False)"

definition post_status_activity :: "post_env \<Rightarrow> post_request \<Rightarrow> kv_lists \<Rightarrow> kv_lists" where
  "post_status_activity env req st = st"

section \<open>Graph builder\<close>

text \<open>
  \<^verbatim>\<open>GraphService\<close> for one namespace. The three keys of the namespace are the fields of
  \<open>graph_kv\<close>: the graph key holds text that \<^verbatim>\<open>JSON.parse\<close> rejects (\<open>Corrupt\<close>) or a
  serialised graph, the file-SHA hash is an association list. The repository host, the
  clock, the lock registry, the import extractor (\<^verbatim>\<open>lib/parser\<close>), the path resolver
  (\<^verbatim>\<open>lib/resolver\<close>) and the collation behind \<^verbatim>\<open>String.prototype.localeCompare\<close> are the
  fields of \<open>build_env\<close>. A comparator is a total preorder, as a collation is. The
  reads and writes of the key/value store themselves succeed; what can throw is the
  repository host and the lock registry.
\<close>

record tree_item =
  ti_type :: string
  ti_path :: "string option"
  ti_sha :: string
  ti_size :: "nat option"

record RepoFile =
  rf_path :: string
  rf_sha :: string
  rf_size :: "nat option"

datatype stored_graph = Corrupt | Stored DependencyGraph

record graph_kv =
  kv_graph :: "stored_graph option"
  kv_meta :: "string option"
  kv_fileShas :: "(string \<times> string) list"

datatype content_result = NoContent | Content string

record build_env =
  be_head :: "string outcome"
  be_tree :: "tree_item list outcome"
  be_content :: "string \<Rightarrow> content_result outcome"
  be_locks :: "(string \<rightharpoonup> LockEntry) outcome"
  be_now :: int
  be_getFileLanguage :: "string \<Rightarrow> string option"
  be_parseImports :: "string \<Rightarrow> string \<Rightarrow> string \<Rightarrow> string list"
  be_resolve :: "string list \<Rightarrow> string \<Rightarrow> string \<Rightarrow> string option"
  be_localeCompare :: "string comparator"

definition endsWith :: "string \<Rightarrow> string \<Rightarrow> bool" where
  "endsWith s suffix = startsWith (rev s) (rev suffix)"

definition supportedExtensions :: "string list" where
  "supportedExtensions = [''.ts'', ''.tsx'', ''.js'', ''.jsx'', ''.py'']"

definition tree_file :: "tree_item \<Rightarrow> RepoFile option" where
  "tree_file item =
     (case ti_path item of
        None \<Rightarrow> None
      | Some p \<Rightarrow>
          if ti_type item = ''blob'' \<and> list_ex (endsWith p) supportedExtensions
          then Some \<lparr>rf_path = p, rf_sha = ti_sha item, rf_size = ti_size item\<rparr>
          else None)"

definition tree_files :: "tree_item list \<Rightarrow> RepoFile list" where
  "tree_files tree = List.map_filter tree_file tree"

definition getCached :: "build_env \<Rightarrow> graph_kv \<Rightarrow> DependencyGraph option" where
  "getCached env kv =
     (case kv_graph kv of
        Some (Stored g) \<Rightarrow>
          (case be_locks env of Inl _ \<Rightarrow> None | Inr l \<Rightarrow> Some (g\<lparr>locks := l\<rparr>))
      | _ \<Rightarrow> None)"

text \<open>\<^verbatim>\<open>storedShas[path]\<close> is truthy when the hash has a non-empty value for the path.\<close>

definition sha_known :: "(string \<times> string) list \<Rightarrow> string \<Rightarrow> bool" where
  "sha_known storedShas p = (case map_of storedShas p of None \<Rightarrow> False | Some s \<Rightarrow> s \<noteq> [])"

definition existing_graph ::
  "graph_kv \<Rightarrow> string list \<Rightarrow> RepoFile list \<Rightarrow> GraphNode list \<times> GraphEdge list \<times> bool" where
  "existing_graph kv deletedFiles changedFiles =
     (case kv_graph kv of
        Some (Stored parsed) \<Rightarrow>
          (let nodes0 = nodes parsed;
               edges0 = edges parsed;
               nodes1 = (if deletedFiles \<noteq> []
                         then filter (\<lambda>n. node_id n \<notin> set deletedFiles) nodes0 else nodes0);
               edges1 = (if deletedFiles \<noteq> []
                         then filter (\<lambda>e. source e \<notin> set deletedFiles
                                          \<and> target e \<notin> set deletedFiles) edges0
                         else edges0);
               edges2 = (if changedFiles \<noteq> []
                         then filter (\<lambda>e. source e \<notin> set (map rf_path changedFiles)) edges1
                         else edges1)
           in (nodes1, edges2, True))
      | _ \<Rightarrow> ([], [], False))"

definition edge_key :: "string \<Rightarrow> string \<Rightarrow> string" where
  "edge_key s t = s @ ''=>'' @ t"

definition add_import ::
  "build_env \<Rightarrow> string list \<Rightarrow> string \<Rightarrow> string \<Rightarrow> GraphEdge list \<times> string list
     \<Rightarrow> GraphEdge list \<times> string list" where
  "add_import env allFilePaths filePath moduleRef es =
     (case be_resolve env allFilePaths moduleRef filePath of
        None \<Rightarrow> es
      | Some resolved \<Rightarrow>
          if resolved = [] then es
          else if edge_key filePath resolved \<in> set (snd es) then es
          else (fst es @ [\<lparr>source = filePath, target = resolved\<rparr>],
                set_add (edge_key filePath resolved) (snd es)))"

type_synonym build_state = "GraphNode list \<times> GraphEdge list \<times> string list \<times> nat"

definition process_file :: "build_env \<Rightarrow> string list \<Rightarrow> RepoFile \<Rightarrow> build_state \<Rightarrow> build_state" where
  "process_file env allFilePaths file s =
     (case s of (ns, es, edgeSet, processedCount) \<Rightarrow>
        (let filePath = rf_path file;
             ns' = (if list_ex (\<lambda>n. node_id n = filePath) ns then ns
                    else ns @ [\<lparr>node_id = filePath, node_size = rf_size file,
                                 node_language = be_getFileLanguage env filePath\<rparr>])
         in case be_content env filePath of
              Inl _ \<Rightarrow> (ns', es, edgeSet, processedCount)
            | Inr NoContent \<Rightarrow> (ns', es, edgeSet, processedCount)
            | Inr (Content content) \<Rightarrow>
                (case be_getFileLanguage env filePath of
                   None \<Rightarrow> (ns', es, edgeSet, processedCount)
                 | Some lang \<Rightarrow>
                     if lang = [] then (ns', es, edgeSet, processedCount)
                     else
                       (case fold (add_import env allFilePaths filePath)
                               (be_parseImports env content filePath lang) (es, edgeSet) of
                          (es', edgeSet') \<Rightarrow> (ns', es', edgeSet', processedCount + 1)))))"

definition edge_comparator :: "string comparator \<Rightarrow> GraphEdge comparator" where
  "edge_comparator cmp = key (\<lambda>e. (source e, target e)) (prod_lex cmp cmp)"

definition hdel :: "string list \<Rightarrow> (string \<times> string) list \<Rightarrow> (string \<times> string) list" where
  "hdel ks h = (if ks = [] then h else filter (\<lambda>kv. fst kv \<notin> set ks) h)"

text \<open>\<^verbatim>\<open>hset\<close> is skipped for an empty object, which would change nothing.\<close>

definition hset :: "(string \<times> string) list \<Rightarrow> (string \<times> string) list \<Rightarrow> (string \<times> string) list" where
  "hset new h = fold (\<lambda>kv. AList.update (fst kv) (snd kv)) new h"

text \<open>
  The body of \<^verbatim>\<open>generate\<close> after the cache check, in three steps: the diff against the
  file-SHA hash and the existing graph (\<open>diff_plan\<close>: the nodes and edges to start from, the
  files to process and the deleted paths), the loop over the files to process, and the
  sorted graph with its metadata (\<open>assemble\<close>). The pipeline writes the graph, the head and
  the file-SHA hash; the lock overlay is read last.
\<close>

definition diff_plan ::
  "graph_kv \<Rightarrow> RepoFile list \<Rightarrow> string list
     \<Rightarrow> GraphNode list \<times> GraphEdge list \<times> RepoFile list \<times> string list" where
  "diff_plan kv files allFilePaths =
     (let storedShas = kv_fileShas kv;
          newFiles = filter (\<lambda>f. \<not> sha_known storedShas (rf_path f)) files;
          changedFiles =
            filter (\<lambda>f. sha_known storedShas (rf_path f)
                        \<and> map_of storedShas (rf_path f) \<noteq> Some (rf_sha f)) files;
          deletedFiles = filter (\<lambda>p. p \<notin> set allFilePaths) (map fst storedShas);
          existing = existing_graph kv deletedFiles changedFiles;
          hasExistingGraph = snd (snd existing);
          incrementalFiles = newFiles @ changedFiles;
          needsFullRebuild =
            (\<not> hasExistingGraph
             \<or> (files \<noteq> [] \<and> fst existing = [] \<and> incrementalFiles = []))
      in if needsFullRebuild then ([], [], files, deletedFiles)
         else (fst existing, fst (snd existing), incrementalFiles, deletedFiles))"

definition assemble :: "build_env \<Rightarrow> string \<Rightarrow> build_state \<Rightarrow> DependencyGraph" where
  "assemble env currentHead built =
     (let nodes3 = Sorting_Algorithms.sort (key node_id (be_localeCompare env)) (fst built);
          edges3 = Sorting_Algorithms.sort (edge_comparator (be_localeCompare env))
                     (fst (snd built))
      in \<lparr>nodes = nodes3, edges = edges3, locks = Map.empty, version = currentHead,
          metadata = \<lparr>generated_at = be_now env, files_processed = snd (snd (snd built)),
                      edges_found = length edges3\<rparr>\<rparr>)"

definition new_shas :: "RepoFile list \<Rightarrow> (string \<times> string) list" where
  "new_shas files = fold (\<lambda>f. AList.update (rf_path f) (rf_sha f)) files []"

definition build :: "build_env \<Rightarrow> graph_kv \<Rightarrow> string \<Rightarrow> graph_kv \<times> DependencyGraph outcome" where
  "build env kv currentHead =
     (case be_tree env of
        Inl e \<Rightarrow> (kv, Inl e)
      | Inr tree \<Rightarrow>
          (let files = tree_files tree;
               allFilePaths = fold set_add (map rf_path files) []
           in case diff_plan kv files allFilePaths of
                (nodes1, edges1, filesToProcess, deletedFiles) \<Rightarrow>
                  (let built = fold (process_file env allFilePaths) filesToProcess
                                 (nodes1, edges1,
                                  fold set_add (map (\<lambda>e. edge_key (source e) (target e)) edges1) [],
                                  0);
                       graph = assemble env currentHead built;
                       kv' = \<lparr>kv_graph = Some (Stored graph), kv_meta = Some currentHead,
                              kv_fileShas =
                                hset (new_shas files) (hdel deletedFiles (kv_fileShas kv))\<rparr>
                   in case be_locks env of
                        Inl e \<Rightarrow> (kv', Inl e)
                      | Inr l \<Rightarrow> (kv', Inr (graph\<lparr>locks := l\<rparr>)))))"

definition generate :: "build_env \<Rightarrow> graph_kv \<Rightarrow> bool \<Rightarrow> graph_kv \<times> DependencyGraph outcome" where
  "generate env kv force =
     (case be_head env of
        Inl e \<Rightarrow> (kv, Inl e)
      | Inr currentHead \<Rightarrow>
          (case (if \<not> force \<and> kv_meta kv = Some currentHead then getCached env kv else None) of
             Some cached \<Rightarrow> (kv, Inr cached)
           | None \<Rightarrow> build env kv currentHead))"

subsection \<open>The state of a namespace\<close>

text \<open>
  A graph is sorted when its nodes are sorted by id and its edges by source, then target.
  \<open>served_from_cache\<close> tells whether \<^verbatim>\<open>generate\<close> returns at its cache check, \<open>wf_tree\<close>
  that the tree of the commit has distinct paths and non-empty blob SHAs, \<open>same_repo\<close> that
  two environments show the same head, tree, locks and collation.
\<close>

definition graph_sorted :: "string comparator \<Rightarrow> DependencyGraph \<Rightarrow> bool" where
  "graph_sorted cmp g =
     (Sorting_Algorithms.sorted (key node_id cmp) (nodes g)
      \<and> Sorting_Algorithms.sorted (edge_comparator cmp) (edges g))"

text \<open>
  A namespace is consistent when the stored graph, if there is one, carries the stored head
  as its version and is sorted. The pipeline of \<^verbatim>\<open>generate\<close>, the only writer of the three
  keys, establishes both, and an empty namespace is consistent.
\<close>

definition kv_consistent :: "string comparator \<Rightarrow> graph_kv \<Rightarrow> bool" where
  "kv_consistent cmp kv =
     (case kv_graph kv of
        Some (Stored g) \<Rightarrow> kv_meta kv = Some (version g) \<and> graph_sorted cmp g
      | _ \<Rightarrow> True)"

definition empty_kv :: graph_kv where
  "empty_kv = \<lparr>kv_graph = None, kv_meta = None, kv_fileShas = []\<rparr>"

definition served_from_cache :: "build_env \<Rightarrow> graph_kv \<Rightarrow> bool \<Rightarrow> bool" where
  "served_from_cache env kv force =
     (case be_head env of
        Inl _ \<Rightarrow> False
      | Inr c \<Rightarrow> \<not> force \<and> kv_meta kv = Some c \<and> getCached env kv \<noteq> None)"

definition wf_files :: "RepoFile list \<Rightarrow> bool" where
  "wf_files files = (distinct (map rf_path files) \<and> list_all (\<lambda>f. rf_sha f \<noteq> []) files)"

definition wf_tree :: "build_env \<Rightarrow> bool" where
  "wf_tree env = (case be_tree env of Inl _ \<Rightarrow> False | Inr tree \<Rightarrow> wf_files (tree_files tree))"

definition same_repo :: "build_env \<Rightarrow> build_env \<Rightarrow> bool" where
  "same_repo env env2 =
     (be_head env2 = be_head env \<and> be_tree env2 = be_tree env \<and> be_locks env2 = be_locks env
      \<and> be_localeCompare env2 = be_localeCompare env)"

subsection \<open>A concrete repository\<close>

text \<open>
  A commit with two source files, one importing the other, a file of another type and a
  directory; \<open>ex_graph1\<close> and \<open>ex_kv1\<close> are the graph and the namespace after the first
  build on an empty namespace.
\<close>

definition ex_tree :: "tree_item list" where
  "ex_tree =
     [\<lparr>ti_type = ''blob'', ti_path = Some ''src/b.ts'', ti_sha = ''sha-b'', ti_size = Some 20\<rparr>,
      \<lparr>ti_type = ''blob'', ti_path = Some ''src/a.ts'', ti_sha = ''sha-a'', ti_size = Some 10\<rparr>,
      \<lparr>ti_type = ''blob'', ti_path = Some ''README.md'', ti_sha = ''sha-r'', ti_size = Some 5\<rparr>,
      \<lparr>ti_type = ''tree'', ti_path = Some ''src'', ti_sha = ''sha-t'', ti_size = None\<rparr>]"

definition ex_content :: "string \<Rightarrow> content_result outcome" where
  "ex_content p = Inr (Content ''import x from ./b'')"

definition ex_getFileLanguage :: "string \<Rightarrow> string option" where
  "ex_getFileLanguage p = Some ''typescript''"

definition ex_parseImports :: "string \<Rightarrow> string \<Rightarrow> string \<Rightarrow> string list" where
  "ex_parseImports content p lang = (if p = ''src/a.ts'' then [''./b''] else [])"

definition ex_resolve :: "string list \<Rightarrow> string \<Rightarrow> string \<Rightarrow> string option" where
  "ex_resolve ps moduleRef p = (if moduleRef = ''./b'' then Some ''src/b.ts'' else None)"

definition ex_build_env :: build_env where
  "ex_build_env =
     \<lparr>be_head = Inr ''c1'', be_tree = Inr ex_tree, be_content = ex_content,
      be_locks = Inr (map_of []), be_now = 1000, be_getFileLanguage = ex_getFileLanguage,
      be_parseImports = ex_parseImports, be_resolve = ex_resolve,
      be_localeCompare = default\<rparr>"

definition result_graph :: "graph_kv \<times> DependencyGraph outcome \<Rightarrow> DependencyGraph option" where
  "result_graph r = (case snd r of Inl _ \<Rightarrow> None | Inr g \<Rightarrow> Some g)"

definition result_files_processed :: "graph_kv \<times> DependencyGraph outcome \<Rightarrow> nat option" where
  "result_files_processed r = map_option (\<lambda>g. files_processed (metadata g)) (result_graph r)"

definition ex_graph1 :: DependencyGraph where
  "ex_graph1 =
     \<lparr>nodes = [\<lparr>node_id = ''src/a.ts'', node_size = Some 10, node_language = Some ''typescript''\<rparr>,
               \<lparr>node_id = ''src/b.ts'', node_size = Some 20, node_language = Some ''typescript''\<rparr>],
      edges = [\<lparr>source = ''src/a.ts'', target = ''src/b.ts''\<rparr>],
      locks = map_of [], version = ''c1'',
      metadata = \<lparr>generated_at = 1000, files_processed = 2, edges_found = 1\<rparr>\<rparr>"

definition ex_kv1 :: graph_kv where
  "ex_kv1 = \<lparr>kv_graph = Some (Stored ex_graph1), kv_meta = Some ''c1'',
             kv_fileShas = [(''src/b.ts'', ''sha-b''), (''src/a.ts'', ''sha-a'')]\<rparr>"

text \<open>
  A namespace whose graph key holds text that does not parse, and a \<^verbatim>\<open>post_status\<close>
  environment whose cached graph is what \<^verbatim>\<open>getCached\<close> returns on it.
\<close>

definition ex_kv_corrupt :: graph_kv where
  "ex_kv_corrupt = \<lparr>kv_graph = Some Corrupt, kv_meta = Some ''c1'', kv_fileShas = []\<rparr>"

definition ex_post_env_graph_corrupt :: post_env where
  "ex_post_env_graph_corrupt = \<lparr>pe_repo_head = Inr ''remote-head'',
     pe_releaseLocks = ex_release_ok, pe_acquireLocks = ex_acquire_conflict,
     pe_cached_graph = Inr (getCached ex_build_env ex_kv_corrupt), pe_retry_at = None\<rparr>"

section \<open>Verified properties\<close>

subsection \<open>check_status: locks, status and orchestration\<close>

lemma map_of_direct_fold:
  "map_of (fold (\<lambda>filePath acc. case L filePath of None \<Rightarrow> acc
              | Some l \<Rightarrow> AList.update filePath (enrich l DIRECT) acc) fps acc) p =
   (if p \<in> set fps \<and> L p \<noteq> None then map_option (\<lambda>l. enrich l DIRECT) (L p)
    else map_of acc p)"
  by (induction fps arbitrary: acc) (auto simp: update_conv' split: option.splits)

lemma map_of_direct_locks:
  "map_of (direct_locks fps L) p =
     (if p \<in> set fps then map_option (\<lambda>l. enrich l DIRECT) (L p) else None)"
  unfolding direct_locks_def by (simp add: map_of_direct_fold)

lemma set_set_add [simp]: "set (set_add x xs) = insert x (set xs)"
  by (auto simp: set_add_def)

lemma set_neighbor_fold:
  "set (fold (neighbor_step req) es acc) =
     set acc \<union> {p. p \<notin> set req \<and> adjacent es req p}"
  by (induction es arbitrary: acc) (auto simp: neighbor_step_def adjacent_def Let_def)

lemma set_neighbor_paths:
  "set (neighbor_paths req es) = {p. p \<notin> set req \<and> adjacent es req p}"
  unfolding neighbor_paths_def by (simp add: set_neighbor_fold)

lemma map_of_neighbor_locks:
  "map_of (neighbor_locks nps L acc) p =
     (case map_of acc p of Some x \<Rightarrow> Some x
      | None \<Rightarrow> if p \<in> set nps then map_option (\<lambda>l. enrich l NEIGHBOR) (L p) else None)"
  unfolding neighbor_locks_def
  by (induction nps arbitrary: acc) (auto simp: update_conv' split: option.splits)

lemma map_of_enriched_locks:
  "map_of (enriched_locks fps L cached) p =
     (case spec_lock_type (edges_of cached) fps p of
        None \<Rightarrow> None
      | Some t \<Rightarrow> map_option (\<lambda>l. enrich l t) (L p))"
  by (auto simp: enriched_locks_def edges_of_def spec_lock_type_def map_of_direct_locks
      map_of_neighbor_locks set_neighbor_paths adjacent_def Let_def
      split: sum.splits option.splits)

lemma distinct_direct_fold:
  "distinct (map fst acc) \<Longrightarrow> distinct (map fst (fold (\<lambda>filePath acc. case L filePath of None \<Rightarrow> acc
              | Some l \<Rightarrow> AList.update filePath (enrich l DIRECT) acc) fps acc))"
  by (induction fps arbitrary: acc) (auto simp: distinct_update split: option.splits)

lemma distinct_neighbor_locks:
  "distinct (map fst acc) \<Longrightarrow> distinct (map fst (neighbor_locks nps L acc))"
  unfolding neighbor_locks_def
  by (induction nps arbitrary: acc) (auto simp: distinct_update split: option.splits)

lemma distinct_enriched_locks: "distinct (map fst (enriched_locks fps L cached))"
  by (auto simp: enriched_locks_def direct_locks_def Let_def distinct_direct_fold distinct_neighbor_locks
     split: sum.splits option.splits)

lemma lock_type_enrich: "lock_type (enrich l t) = t"
  by (simp add: enrich_def LockEntry.extend_def)

lemma check_status_ok:
  assumes "filePaths \<noteq> []" "ce_repo_head env = Inr repoHead" "ce_locks env = Inr allLocks"
  shows "check_status env (mk_check_request repoUrl branch filePaths agentHead h) =
    (200, CheckResult
       \<lparr>cs_status = check_top (agentHead \<noteq> repoHead)
           (conflicting_locks (requestingUser h) (enriched_locks filePaths allLocks (ce_cached_graph env))),
        cs_repo_head = repoHead,
        cs_locks = enriched_locks filePaths allLocks (ce_cached_graph env),
        cs_warnings = (if agentHead \<noteq> repoHead
                                then [''STALE_BRANCH: Your branch is behind origin/'' @ branch]
                                else []),
        cs_orchestration = check_orchestration (agentHead \<noteq> repoHead) repoHead
           (conflicting_locks (requestingUser h) (enriched_locks filePaths allLocks (ce_cached_graph env)))\<rparr>)"
  using assms by (simp add: check_status_def mk_check_request_def Let_def)

text \<open>
  C1 (as amended). Whenever the caller's \<^verbatim>\<open>agent_head\<close> differs from the remote head, a
  well-formed \<^verbatim>\<open>check_status\<close> request whose head and lock reads succeed is answered with
  HTTP 200 and orchestration action \<^verbatim>\<open>PULL\<close>, whatever the locks are. The top-level status
  is \<^verbatim>\<open>CONFLICT\<close> when a returned lock belongs to another user and \<^verbatim>\<open>STALE\<close> otherwise:
  the second assignment in the route overrides the first, so the precedence of the status
  field is \<^verbatim>\<open>CONFLICT > STALE > OK\<close>.
\<close>

theorem check_status_stale_pull:
  assumes "filePaths \<noteq> []" "ce_repo_head env = Inr repoHead" "ce_locks env = Inr allLocks"
    and "agentHead \<noteq> repoHead"
  shows "\<exists>r. check_status env (mk_check_request repoUrl branch filePaths agentHead h)
               = (200, CheckResult r)
           \<and> action (cs_orchestration r) = PULL
           \<and> cs_status r =
               (if list_ex (\<lambda>(p, l). user_id l \<noteq> requestingUser h) (cs_locks r)
                then CONFLICT else STALE)"
  using assms
  by (simp add: check_status_ok check_top_def check_orchestration_def conflicting_locks_def
        list_ex_iff filter_empty_conv split_def)

text \<open>
  C4. In every \<^verbatim>\<open>check_status\<close> response the returned locks are exactly the entries of
  the lock registry whose path is requested or adjacent (in either direction) to a
  requested path in the cached graph; each path is returned once; a lock on a requested
  path is tagged \<^verbatim>\<open>DIRECT\<close>, a lock on a path that is only adjacent is tagged
  \<^verbatim>\<open>NEIGHBOR\<close>, and \<^verbatim>\<open>DIRECT\<close> wins when both apply (\<open>spec_lock_type\<close>).
\<close>

theorem check_status_lock_types:
  assumes "filePaths \<noteq> []" "ce_repo_head env = Inr repoHead" "ce_locks env = Inr allLocks"
  shows "\<exists>r. check_status env (mk_check_request repoUrl branch filePaths agentHead h)
               = (200, CheckResult r)
           \<and> distinct (map fst (cs_locks r))
           \<and> (\<forall>p. map_of (cs_locks r) p =
                 (case spec_lock_type (edges_of (ce_cached_graph env)) filePaths p of
                    None \<Rightarrow> None
                  | Some t \<Rightarrow> map_option (\<lambda>l. enrich l t) (allLocks p)))
           \<and> (\<forall>(p, l) \<in> set (cs_locks r).
                 spec_lock_type (edges_of (ce_cached_graph env)) filePaths p = Some (lock_type l))"
proof -
  let ?E = "enriched_locks filePaths allLocks (ce_cached_graph env)"
  have d: "distinct (map fst ?E)" by (rule distinct_enriched_locks)
  have m: "\<And>p. map_of ?E p =
                 (case spec_lock_type (edges_of (ce_cached_graph env)) filePaths p of
                    None \<Rightarrow> None
                  | Some t \<Rightarrow> map_option (\<lambda>l. enrich l t) (allLocks p))"
    by (rule map_of_enriched_locks)
  have t: "spec_lock_type (edges_of (ce_cached_graph env)) filePaths p = Some (lock_type l)"
    if "(p, l) \<in> set ?E" for p l
  proof -
    from that d have "map_of ?E p = Some l" by simp
    with m[of p] obtain t l' where "spec_lock_type (edges_of (ce_cached_graph env)) filePaths p = Some t"
      and "l = enrich l' t"
      by (cases "allLocks p") (auto split: option.splits)
    then show ?thesis by (simp add: lock_type_enrich)
  qed
  show ?thesis
    using d m t by (auto simp: check_status_ok[OF assms])
qed

lemma ex_neighbors_returned:
  "returned_lock_types (check_status ex_check_env_neighbors
      (mk_check_request ''https://github.com/a/b'' ''main'' [''src/a.ts'', ''src/b.ts'']
         ''remote-head'' ex_headers_user2)) =
   [(''src/a.ts'', DIRECT), (''src/b.ts'', DIRECT), (''src/dep.ts'', NEIGHBOR),
    (''src/user.ts'', NEIGHBOR)]"
  by (simp add: returned_lock_types_def check_status_def mk_check_request_def
        ex_check_env_neighbors_def ex_neighbor_locks_def ex_neighbor_graph_def
        enriched_locks_def direct_locks_def neighbor_paths_def neighbor_step_def
        neighbor_locks_def set_add_def Let_def lock_type_enrich)

lemma ex_neighbors_spec:
  "map (spec_lock_type (edges ex_neighbor_graph) [''src/a.ts'', ''src/b.ts''])
     [''src/a.ts'', ''src/b.ts'', ''src/dep.ts'', ''src/user.ts'', ''src/far.ts'']
   = [Some DIRECT, Some DIRECT, Some NEIGHBOR, Some NEIGHBOR, None]"
  by (simp add: spec_lock_type_def adjacent_def ex_neighbor_graph_def)

theorem check_status_lock_types_witness:
  "[''src/a.ts'', ''src/b.ts''] \<noteq> []
   \<and> ce_repo_head ex_check_env_neighbors = Inr ''remote-head''
   \<and> ce_locks ex_check_env_neighbors = Inr ex_neighbor_locks
   \<and> (\<exists>r. check_status ex_check_env_neighbors
              (mk_check_request ''https://github.com/a/b'' ''main'' [''src/a.ts'', ''src/b.ts'']
                 ''remote-head'' ex_headers_user2) = (200, CheckResult r)
           \<and> distinct (map fst (cs_locks r))
           \<and> (\<forall>p. map_of (cs_locks r) p =
                 (case spec_lock_type (edges_of (ce_cached_graph ex_check_env_neighbors))
                         [''src/a.ts'', ''src/b.ts''] p of
                    None \<Rightarrow> None
                  | Some t \<Rightarrow> map_option (\<lambda>l. enrich l t) (ex_neighbor_locks p)))
           \<and> (\<forall>(p, l) \<in> set (cs_locks r).
                 spec_lock_type (edges_of (ce_cached_graph ex_check_env_neighbors))
                   [''src/a.ts'', ''src/b.ts''] p = Some (lock_type l)))
   \<and> edges_of (ce_cached_graph ex_check_env_neighbors) = edges ex_neighbor_graph
   \<and> map (spec_lock_type (edges ex_neighbor_graph) [''src/a.ts'', ''src/b.ts''])
        [''src/a.ts'', ''src/b.ts'', ''src/dep.ts'', ''src/user.ts'', ''src/far.ts'']
       = [Some DIRECT, Some DIRECT, Some NEIGHBOR, Some NEIGHBOR, None]
   \<and> returned_lock_types (check_status ex_check_env_neighbors
        (mk_check_request ''https://github.com/a/b'' ''main'' [''src/a.ts'', ''src/b.ts'']
           ''remote-head'' ex_headers_user2)) =
       [(''src/a.ts'', DIRECT), (''src/b.ts'', DIRECT), (''src/dep.ts'', NEIGHBOR),
        (''src/user.ts'', NEIGHBOR)]"
proof -
  have h: "[''src/a.ts'', ''src/b.ts''] \<noteq> []"
    "ce_repo_head ex_check_env_neighbors = Inr ''remote-head''"
    "ce_locks ex_check_env_neighbors = Inr ex_neighbor_locks"
    by (simp_all add: ex_check_env_neighbors_def)
  note t = check_status_lock_types [OF h, of "''https://github.com/a/b''" "''main''"
      "''remote-head''" ex_headers_user2]
  have e: "edges_of (ce_cached_graph ex_check_env_neighbors) = edges ex_neighbor_graph"
    by (simp add: edges_of_def ex_check_env_neighbors_def)
  show ?thesis
    using h t e ex_neighbors_spec ex_neighbors_returned by (intro conjI) assumption+
qed

text \<open>
  The claim C1 as stated fails: with a stale head and a lock of another user on the
  requested file the status field is \<^verbatim>\<open>CONFLICT\<close>, not \<^verbatim>\<open>STALE\<close>, while the action is
  \<^verbatim>\<open>PULL\<close>.
\<close>

theorem check_status_stale_conflict_counterexample:
  "top_status (check_status ex_check_env
      (mk_check_request ''https://github.com/a/b'' ''main'' [''src/a.ts''] ''local-head''
         ex_headers_user2)) = Some CONFLICT
   \<and> top_action (check_status ex_check_env
      (mk_check_request ''https://github.com/a/b'' ''main'' [''src/a.ts''] ''local-head''
         ex_headers_user2)) = Some PULL"
  by (simp add: check_status_def mk_check_request_def ex_check_env_def ex_all_locks_def
        ex_headers_user2_def enriched_locks_def direct_locks_def conflicting_locks_def
        requestingUser_def check_top_def check_orchestration_def top_status_def top_action_def
        enrich_def LockEntry.extend_def ex_lock_a_def Let_def)

theorem check_status_stale_pull_witness:
  "[''src/a.ts''] \<noteq> [] \<and> ce_repo_head ex_check_env = Inr ''remote-head''
   \<and> ce_locks ex_check_env = Inr ex_all_locks \<and> ''local-head'' \<noteq> ''remote-head''
   \<and> (\<exists>r. check_status ex_check_env
              (mk_check_request ''https://github.com/a/b'' ''main'' [''src/a.ts''] ''local-head''
                 ex_headers_user2) = (200, CheckResult r)
           \<and> action (cs_orchestration r) = PULL
           \<and> cs_status r =
               (if list_ex (\<lambda>(p, l). user_id l \<noteq> requestingUser ex_headers_user2) (cs_locks r)
                then CONFLICT else STALE))"
  using check_status_stale_pull [of "[''src/a.ts'']" ex_check_env "''remote-head''" ex_all_locks
      "''local-head''" "''https://github.com/a/b''" "''main''" ex_headers_user2]
  by (simp add: ex_check_env_def)

subsection \<open>post_status: release, acquire and orphaned dependencies\<close>

text \<open>
  C2 (as amended). A well-formed \<^verbatim>\<open>OPEN\<close> request whose \<^verbatim>\<open>new_repo_head\<close> and
  \<^verbatim>\<open>agent_head\<close> are both present and equal is answered, once the remote head has been
  read, with HTTP 400, \<^verbatim>\<open>success = false\<close> and a \<^verbatim>\<open>PUSH\<close> orchestration, and the lock
  registry is not called.
\<close>

theorem post_status_open_push:
  assumes "filePaths \<noteq> []" and "pe_repo_head env = Inr repoHead"
  shows "post_status env
           (mk_post_request repoUrl branch filePaths OPEN msg (Some head) (Some head) h) =
         \<lparr>http_status = 400,
          body = PostResult
            \<lparr>success = False, result_locks = None, orphaned_dependencies = None,
             post_orchestration =
               \<lparr>action = PUSH, command = Some ''git push'',
                reason = ''You need to push your changes to advance the repo''\<rparr>,
             pull_metadata = None\<rparr>,
          lock_calls = []\<rparr>"
  using assms by (simp add: post_status_def mk_post_request_def post_open_def)

text \<open>The claim C2 as stated fails: the push-needed response carries HTTP 400, not 200.\<close>

theorem post_status_open_push_counterexample:
  "http_status (post_status ex_post_env
      (mk_post_request ''https://github.com/a/b'' ''master'' [''README.md''] OPEN
         ''release lock'' (Some ''abc123'') (Some ''abc123'') ex_headers_user2)) = 400"
  by (simp add: post_status_def mk_post_request_def post_open_def ex_post_env_def)

theorem post_status_open_push_witness:
  "[''README.md''] \<noteq> [] \<and> pe_repo_head ex_post_env = Inr ''remote-head''
   \<and> post_status ex_post_env
        (mk_post_request ''https://github.com/a/b'' ''master'' [''README.md''] OPEN
           ''release lock'' (Some ''abc123'') (Some ''abc123'') ex_headers_user2) =
      \<lparr>http_status = 400,
       body = PostResult
         \<lparr>success = False, result_locks = None, orphaned_dependencies = None,
          post_orchestration =
            \<lparr>action = PUSH, command = Some ''git push'',
             reason = ''You need to push your changes to advance the repo''\<rparr>,
          pull_metadata = None\<rparr>,
       lock_calls = []\<rparr>"
  using post_status_open_push [of "[''README.md'']" ex_post_env "''remote-head''"
      "''https://github.com/a/b''" "''master''" "''release lock''" "''abc123''" ex_headers_user2]
  by (simp add: ex_post_env_def)

text \<open>
  C3. The claim says that a \<^verbatim>\<open>READING\<close> request goes through the acquire path and yields
  \<^verbatim>\<open>SWITCH_TASK\<close> when the acquire fails. Evaluated on a registry that would report
  \<^verbatim>\<open>FILE_CONFLICT\<close>, this route answers \<^verbatim>\<open>PROCEED\<close> with reason
  \<^verbatim>\<open>Reading status recorded\<close> and never calls the lock registry.
\<close>

theorem post_status_reading_no_acquire:
  "post_status ex_post_env
     (mk_post_request ''https://github.com/a/b'' ''main'' [''src/readme.ts''] ST_READING
        ''reviewing'' None None (map_of [(''x-github-user'', ''reader'')])) =
   \<lparr>http_status = 200,
    body = PostResult
      \<lparr>success = True, result_locks = None, orphaned_dependencies = None,
       post_orchestration =
         \<lparr>action = PROCEED, command = None, reason = ''Reading status recorded''\<rparr>,
       pull_metadata = None\<rparr>,
    lock_calls = []\<rparr>"
  by (simp add: post_status_def mk_post_request_def post_reading_def ex_post_env_def)

lemma set_orphaned_fold:
  "set (fold (orphaned_step released) es acc) = set acc \<union> spec_orphaned es released"
  by (induction es arbitrary: acc) (auto simp: orphaned_step_def spec_orphaned_def)

lemma distinct_set_add: "distinct xs \<Longrightarrow> distinct (set_add x xs)"
  by (simp add: set_add_def)

lemma distinct_orphaned_fold:
  "distinct acc \<Longrightarrow> distinct (fold (orphaned_step released) es acc)"
  by (induction es arbitrary: acc) (auto simp: orphaned_step_def distinct_set_add)

lemma set_orphanedDependencies:
  "set (orphanedDependencies filePaths cached) = spec_orphaned (edges_of cached) filePaths"
  by (auto simp: orphanedDependencies_def edges_of_def set_orphaned_fold spec_orphaned_def
      split: sum.splits option.splits)

lemma distinct_orphanedDependencies: "distinct (orphanedDependencies filePaths cached)"
  by (auto simp: orphanedDependencies_def distinct_orphaned_fold split: sum.splits option.splits)

text \<open>
  C5. A well-formed \<^verbatim>\<open>OPEN\<close> request that is not push-needed and whose release returns
  is answered with \<^verbatim>\<open>success = true\<close> and an \<^verbatim>\<open>orphaned_dependencies\<close> list without
  repetitions whose elements are exactly the files \<open>g\<close> with an edge \<open>g \<rightarrow> f\<close> in the cached
  graph for a released \<open>f\<close>, \<open>g\<close> itself not released; no released path is in the list.
\<close>

theorem post_status_open_orphaned:
  assumes "filePaths \<noteq> []" and "pe_repo_head env = Inr repoHead"
    and "newRepoHead = None \<or> newRepoHead \<noteq> agentHead"
    and "pe_releaseLocks env repoUrl branch filePaths (userId h) = Inr released"
  shows "\<exists>ds. post_status env
                 (mk_post_request repoUrl branch filePaths OPEN msg agentHead newRepoHead h) =
               \<lparr>http_status = 200,
                body = PostResult
                  \<lparr>success = True, result_locks = None, orphaned_dependencies = Some ds,
                   post_orchestration =
                     \<lparr>action = PROCEED, command = None,
                      reason = ''Locks released successfully''\<rparr>,
                   pull_metadata = None\<rparr>,
                lock_calls = [ReleaseLocks repoUrl branch filePaths (userId h)]\<rparr>
            \<and> distinct ds
            \<and> set ds = spec_orphaned (edges_of (pe_cached_graph env)) filePaths
            \<and> set ds \<inter> set filePaths = {}"
proof -
  have np: "\<not> (case (newRepoHead, agentHead) of
            (Some n, Some a) \<Rightarrow> n = a | _ \<Rightarrow> False)"
    using assms(3) by (auto split: option.splits)
  have "set (orphanedDependencies filePaths (pe_cached_graph env)) \<inter> set filePaths = {}"
    by (auto simp: set_orphanedDependencies spec_orphaned_def)
  then show ?thesis
    using assms np
    by (simp add: post_status_def mk_post_request_def post_open_def Let_def
          set_orphanedDependencies distinct_orphanedDependencies)
qed

theorem post_status_open_orphaned_witness:
  "[''src/auth.ts''] \<noteq> [] \<and> pe_repo_head ex_post_env = Inr ''remote-head''
   \<and> (None = None \<or> None \<noteq> (None :: string option))
   \<and> pe_releaseLocks ex_post_env ''https://github.com/a/b'' ''main'' [''src/auth.ts'']
         (userId ex_headers_user2) = Inr True
   \<and> (\<exists>ds. post_status ex_post_env
                (mk_post_request ''https://github.com/a/b'' ''main'' [''src/auth.ts''] OPEN
                   ''done'' None None ex_headers_user2) =
              \<lparr>http_status = 200,
               body = PostResult
                 \<lparr>success = True, result_locks = None, orphaned_dependencies = Some ds,
                  post_orchestration =
                    \<lparr>action = PROCEED, command = None,
                     reason = ''Locks released successfully''\<rparr>,
                  pull_metadata = None\<rparr>,
               lock_calls = [ReleaseLocks ''https://github.com/a/b'' ''main'' [''src/auth.ts'']
                               (userId ex_headers_user2)]\<rparr>
           \<and> distinct ds
           \<and> set ds = spec_orphaned (edges_of (pe_cached_graph ex_post_env)) [''src/auth.ts'']
           \<and> set ds \<inter> set [''src/auth.ts''] = {})"
  using post_status_open_orphaned [of "[''src/auth.ts'']" ex_post_env "''remote-head''" None None
      "''https://github.com/a/b''" "''main''" ex_headers_user2 True "''done''"]
  by (simp add: ex_post_env_def ex_release_ok_def)

subsection \<open>Caller identity\<close>

lemma first_truthy_2:
  "first_truthy [h a, h b] lit = header_preference h a b lit"
  by (cases "h a"; cases "h b") (auto simp: header_preference_def truthy_def)

text \<open>
  C6 (as amended). \<^verbatim>\<open>post_status\<close> resolves the caller identity from header
  \<^verbatim>\<open>x-github-user\<close>, then \<^verbatim>\<open>x-github-username\<close>, then the string \<^verbatim>\<open>anonymous\<close>, and the
  display name with the reverse header preference (then \<^verbatim>\<open>Anonymous\<close>): these are the
  values it passes to the lock registry when it acquires and when it releases.
  \<^verbatim>\<open>check_status\<close> uses the same header preference but falls back to the empty string:
  a returned lock counts as conflicting exactly when its \<^verbatim>\<open>user_id\<close> differs from that
  value.
\<close>

theorem identity_resolution:
  assumes "filePaths \<noteq> []" and "pe_repo_head penv = Inr repoHead"
    and "ce_repo_head cenv = Inr repoHead" and "ce_locks cenv = Inr allLocks"
  shows "(\<exists>inp. lock_calls (post_status penv
                   (mk_post_request repoUrl branch filePaths ST_WRITING msg (Some repoHead) nh h))
                 = [AcquireLocks inp]
            \<and> ai_userId inp = header_preference h ''x-github-user'' ''x-github-username'' ''anonymous''
            \<and> ai_userName inp
                = header_preference h ''x-github-username'' ''x-github-user'' ''Anonymous'')
       \<and> lock_calls (post_status penv
                   (mk_post_request repoUrl branch filePaths OPEN msg None nh h))
           = [ReleaseLocks repoUrl branch filePaths
                (header_preference h ''x-github-user'' ''x-github-username'' ''anonymous'')]
       \<and> (\<exists>r. check_status cenv (mk_check_request repoUrl branch filePaths repoHead h)
                 = (200, CheckResult r)
              \<and> (cs_status r = CONFLICT) =
                  list_ex (\<lambda>(p, l). user_id l \<noteq>
                       header_preference h ''x-github-user'' ''x-github-username'' '''')
                    (cs_locks r))"
proof -
  have u: "userId h = header_preference h ''x-github-user'' ''x-github-username'' ''anonymous''"
    and n: "userName h = header_preference h ''x-github-username'' ''x-github-user'' ''Anonymous''"
    and r: "requestingUser h = header_preference h ''x-github-user'' ''x-github-username'' ''''"
    by (simp_all only: userId_def userName_def requestingUser_def first_truthy_2)
  have w: "\<exists>inp. lock_calls (post_status penv
                   (mk_post_request repoUrl branch filePaths ST_WRITING msg (Some repoHead) nh h))
                 = [AcquireLocks inp]
            \<and> ai_userId inp = userId h \<and> ai_userName inp = userName h"
    using assms(1,2)
    by (cases "pe_acquireLocks penv \<lparr>ai_repoUrl = repoUrl, ai_branch = branch,
            ai_filePaths = filePaths, ai_userId = userId h, ai_userName = userName h,
            ai_status = ST_WRITING, ai_message = msg, ai_agentHead = repoHead\<rparr>")
       (auto simp: post_status_def mk_post_request_def post_writing_def Let_def post_error_def
          split: lock_result.splits prod.splits)
  have o: "lock_calls (post_status penv
                   (mk_post_request repoUrl branch filePaths OPEN msg None nh h))
           = [ReleaseLocks repoUrl branch filePaths (userId h)]"
    using assms(1,2)
    by (cases nh)
       (auto simp: post_status_def mk_post_request_def post_open_def Let_def post_error_def
          split: sum.splits prod.splits)
  have c: "\<exists>r. check_status cenv (mk_check_request repoUrl branch filePaths repoHead h)
                 = (200, CheckResult r)
              \<and> (cs_status r = CONFLICT) =
                  list_ex (\<lambda>(p, l). user_id l \<noteq> requestingUser h) (cs_locks r)"
    using assms(1,3,4)
    by (simp add: check_status_ok check_top_def conflicting_locks_def
        list_ex_iff filter_empty_conv split_def)
  show ?thesis using w o c unfolding u n r by blast
qed

theorem identity_resolution_witness:
  "[''src/a.ts''] \<noteq> [] \<and> pe_repo_head ex_post_env = Inr ''remote-head''
   \<and> ce_repo_head ex_check_env = Inr ''remote-head'' \<and> ce_locks ex_check_env = Inr ex_all_locks
   \<and> ((\<exists>inp. lock_calls (post_status ex_post_env
                   (mk_post_request ''https://github.com/a/b'' ''main'' [''src/a.ts''] ST_WRITING
                      ''work'' (Some ''remote-head'') None ex_headers_user2))
                 = [AcquireLocks inp]
            \<and> ai_userId inp
                = header_preference ex_headers_user2 ''x-github-user'' ''x-github-username''
                    ''anonymous''
            \<and> ai_userName inp
                = header_preference ex_headers_user2 ''x-github-username'' ''x-github-user''
                    ''Anonymous'')
       \<and> lock_calls (post_status ex_post_env
                   (mk_post_request ''https://github.com/a/b'' ''main'' [''src/a.ts''] OPEN
                      ''work'' None None ex_headers_user2))
           = [ReleaseLocks ''https://github.com/a/b'' ''main'' [''src/a.ts'']
                (header_preference ex_headers_user2 ''x-github-user'' ''x-github-username''
                   ''anonymous'')]
       \<and> (\<exists>r. check_status ex_check_env
                 (mk_check_request ''https://github.com/a/b'' ''main'' [''src/a.ts'']
                    ''remote-head'' ex_headers_user2)
                 = (200, CheckResult r)
              \<and> (cs_status r = CONFLICT) =
                  list_ex (\<lambda>(p, l). user_id l \<noteq>
                       header_preference ex_headers_user2 ''x-github-user''
                         ''x-github-username'' '''')
                    (cs_locks r)))"
  using identity_resolution [of "[''src/a.ts'']" ex_post_env "''remote-head''" ex_check_env
      ex_all_locks "''https://github.com/a/b''" "''main''" "''work''" None ex_headers_user2]
  by (simp add: ex_post_env_def ex_check_env_def)

text \<open>
  The claim C6 as stated fails on \<^verbatim>\<open>check_status\<close>: without identity headers the caller
  is the empty string there, while \<^verbatim>\<open>post_status\<close> resolves \<^verbatim>\<open>anonymous\<close>.
\<close>

theorem identity_check_status_counterexample:
  "requestingUser ex_no_headers = '''' \<and> userId ex_no_headers = ''anonymous''"
  by (simp add: requestingUser_def userId_def ex_no_headers_def)

subsection \<open>A failing read of the cached graph\<close>

text \<open>
  C10. When the read of the cached graph throws, or the stored graph does not parse (so
  that \<^verbatim>\<open>getCached\<close> returns \<^verbatim>\<open>null\<close>), a well-formed \<^verbatim>\<open>check_status\<close> request is still
  answered with HTTP 200: the returned locks are the direct locks (every lock of the
  registry on a requested path, tagged \<^verbatim>\<open>DIRECT\<close>) and nothing else; and a well-formed
  \<^verbatim>\<open>OPEN\<close> request that reaches the release is answered with HTTP 200,
  \<^verbatim>\<open>success = true\<close> and an empty \<^verbatim>\<open>orphaned_dependencies\<close> list.
\<close>

theorem graph_read_error_tolerated:
  assumes "filePaths \<noteq> []"
    and "ce_repo_head cenv = Inr repoHead" and "ce_locks cenv = Inr allLocks"
    and "ce_cached_graph cenv = Inl e1 \<or> ce_cached_graph cenv = Inr (getCached benv kv)"
    and "pe_repo_head penv = Inr repoHead"
    and "newRepoHead = None \<or> newRepoHead \<noteq> agentHead"
    and "pe_releaseLocks penv repoUrl branch filePaths (userId h) = Inr released"
    and "pe_cached_graph penv = Inl e2 \<or> pe_cached_graph penv = Inr (getCached benv kv)"
    and "kv_graph kv = Some Corrupt"
  shows "(\<exists>r. check_status cenv (mk_check_request repoUrl branch filePaths head h)
                = (200, CheckResult r)
            \<and> cs_locks r = direct_locks filePaths allLocks
            \<and> (\<forall>p. map_of (cs_locks r) p =
                  (if p \<in> set filePaths then map_option (\<lambda>l. enrich l DIRECT) (allLocks p)
                   else None)))
       \<and> post_status penv
           (mk_post_request repoUrl branch filePaths OPEN msg agentHead newRepoHead h) =
           \<lparr>http_status = 200,
            body = PostResult
              \<lparr>success = True, result_locks = None, orphaned_dependencies = Some [],
               post_orchestration =
                 \<lparr>action = PROCEED, command = None, reason = ''Locks released successfully''\<rparr>,
               pull_metadata = None\<rparr>,
            lock_calls = [ReleaseLocks repoUrl branch filePaths (userId h)]\<rparr>"
proof -
  have g: "getCached benv kv = None"
    using assms(9) by (simp add: getCached_def)
  have np: "\<not> (case (newRepoHead, agentHead) of
            (Some n, Some a) \<Rightarrow> n = a | _ \<Rightarrow> False)"
    using assms(6) by (auto split: option.splits)
  have el: "enriched_locks filePaths allLocks (ce_cached_graph cenv)
              = direct_locks filePaths allLocks"
    using assms(4) g by (auto simp: enriched_locks_def)
  have od: "orphanedDependencies filePaths (pe_cached_graph penv) = []"
    using assms(8) g by (auto simp: orphanedDependencies_def)
  have c: "\<exists>r. check_status cenv (mk_check_request repoUrl branch filePaths head h)
                = (200, CheckResult r)
            \<and> cs_locks r = direct_locks filePaths allLocks
            \<and> (\<forall>p. map_of (cs_locks r) p =
                  (if p \<in> set filePaths then map_option (\<lambda>l. enrich l DIRECT) (allLocks p)
                   else None))"
    using assms(1-3) by (simp add: check_status_ok el map_of_direct_locks)
  have p: "post_status penv
           (mk_post_request repoUrl branch filePaths OPEN msg agentHead newRepoHead h) =
           \<lparr>http_status = 200,
            body = PostResult
              \<lparr>success = True, result_locks = None, orphaned_dependencies = Some [],
               post_orchestration =
                 \<lparr>action = PROCEED, command = None, reason = ''Locks released successfully''\<rparr>,
               pull_metadata = None\<rparr>,
            lock_calls = [ReleaseLocks repoUrl branch filePaths (userId h)]\<rparr>"
    using assms(1,5,7) np
    by (simp add: post_status_def mk_post_request_def post_open_def Let_def od)
  show ?thesis using c p by blast
qed

theorem graph_read_error_tolerated_witness:
  "[''src/a.ts''] \<noteq> []
   \<and> ce_repo_head ex_check_env_graph_fails = Inr ''remote-head''
   \<and> ce_locks ex_check_env_graph_fails = Inr ex_all_locks
   \<and> ce_cached_graph ex_check_env_graph_fails = Inl (OtherError ''KV unavailable'')
   \<and> pe_repo_head ex_post_env_graph_corrupt = Inr ''remote-head''
   \<and> pe_releaseLocks ex_post_env_graph_corrupt ''https://github.com/a/b'' ''main''
        [''src/a.ts''] (userId ex_headers_user2) = Inr True
   \<and> pe_cached_graph ex_post_env_graph_corrupt = Inr (getCached ex_build_env ex_kv_corrupt)
   \<and> kv_graph ex_kv_corrupt = Some Corrupt
   \<and> (\<exists>r. check_status ex_check_env_graph_fails
              (mk_check_request ''https://github.com/a/b'' ''main'' [''src/a.ts'']
                 ''remote-head'' ex_headers_user2)
                = (200, CheckResult r)
            \<and> cs_locks r = direct_locks [''src/a.ts''] ex_all_locks
            \<and> (\<forall>p. map_of (cs_locks r) p =
                  (if p \<in> set [''src/a.ts'']
                   then map_option (\<lambda>l. enrich l DIRECT) (ex_all_locks p) else None)))
   \<and> post_status ex_post_env_graph_corrupt
        (mk_post_request ''https://github.com/a/b'' ''main'' [''src/a.ts''] OPEN ''done''
           None None ex_headers_user2) =
        \<lparr>http_status = 200,
         body = PostResult
           \<lparr>success = True, result_locks = None, orphaned_dependencies = Some [],
            post_orchestration =
              \<lparr>action = PROCEED, command = None, reason = ''Locks released successfully''\<rparr>,
            pull_metadata = None\<rparr>,
         lock_calls = [ReleaseLocks ''https://github.com/a/b'' ''main'' [''src/a.ts'']
                         (userId ex_headers_user2)]\<rparr>"
proof -
  have h: "[''src/a.ts''] \<noteq> []"
    "ce_repo_head ex_check_env_graph_fails = Inr ''remote-head''"
    "ce_locks ex_check_env_graph_fails = Inr ex_all_locks"
    "ce_cached_graph ex_check_env_graph_fails = Inl (OtherError ''KV unavailable'')
       \<or> ce_cached_graph ex_check_env_graph_fails = Inr (getCached ex_build_env ex_kv_corrupt)"
    "pe_repo_head ex_post_env_graph_corrupt = Inr ''remote-head''"
    "(None :: string option) = None \<or> (None :: string option) \<noteq> None"
    "pe_releaseLocks ex_post_env_graph_corrupt ''https://github.com/a/b'' ''main''
        [''src/a.ts''] (userId ex_headers_user2) = Inr True"
    "pe_cached_graph ex_post_env_graph_corrupt = Inl (OtherError ''KV unavailable'')
       \<or> pe_cached_graph ex_post_env_graph_corrupt = Inr (getCached ex_build_env ex_kv_corrupt)"
    "kv_graph ex_kv_corrupt = Some Corrupt"
    by (simp_all add: ex_check_env_graph_fails_def ex_post_env_graph_corrupt_def
          ex_release_ok_def ex_kv_corrupt_def)
  note t = graph_read_error_tolerated [OF h, where head = "''remote-head''"
      and msg = "''done''"]
  have e: "ce_cached_graph ex_check_env_graph_fails = Inl (OtherError ''KV unavailable'')"
    "pe_cached_graph ex_post_env_graph_corrupt = Inr (getCached ex_build_env ex_kv_corrupt)"
    by (simp_all add: ex_check_env_graph_fails_def ex_post_env_graph_corrupt_def)
  show ?thesis using h(1,2,3,5,7,9) e t by blast
qed

subsection \<open>MCP adapter: the branch fallback\<close>

lemma body_branch_check: "map_of (ac_body (check_call a b)) ''branch'' = Some (JStr b)"
  by (auto simp: check_call_def json_prop_def map_add_def split: option.splits)

lemma body_branch_post: "map_of (ac_body (post_call a b)) ''branch'' = Some (JStr b)"
  by (auto simp: post_call_def json_prop_def map_add_def split: option.splits)

lemma resolveBranch_supplied:
  "resolveBranch (map_of a ''branch'') =
     (case supplied_branch a of Some b \<Rightarrow> (b, True) | None \<Rightarrow> (''master'', False))"
  by (simp add: resolveBranch_def supplied_branch_def DEFAULT_MCP_BRANCH_def
        split: option.splits json.splits)

lemma shouldRetry_signal:
  "shouldRetryOnMissingBranchReference r = branch_not_found_signal (Inr r)"
  by (auto simp: shouldRetryOnMissingBranchReference_def branch_not_found_signal_def
        mentions_missing_reference_def Let_def)

lemma call_tool_trace:
  "snd (call_tool mk finish unr api a) = map (mk a) (spec_branches mk api a)"
  by (auto simp: call_tool_def resolveBranch_supplied spec_branches_def shouldRetry_signal
        FALLBACK_MCP_BRANCH_def Let_def branch_not_found_signal_def
        split: option.splits sum.splits)

lemma call_tool_result:
  "fst (call_tool mk finish unr api a) =
     spec_result finish unr (api (mk a (last (spec_branches mk api a))))"
  by (auto simp: call_tool_def resolveBranch_supplied spec_branches_def shouldRetry_signal
        FALLBACK_MCP_BRANCH_def Let_def branch_not_found_signal_def spec_result_def
        split: option.splits sum.splits)

lemma no_signal_without_404_500:
  "st \<noteq> 404 \<Longrightarrow> st \<noteq> 500 \<Longrightarrow> \<not> branch_not_found_signal (Inr (st, p))"
  by (simp add: branch_not_found_signal_def)

lemma spec_branches_first:
  "hd (spec_branches mk api a) = (case supplied_branch a of Some b \<Rightarrow> b | None \<Rightarrow> ''master'')"
  by (simp add: spec_branches_def split: option.splits)


text \<open>
  C7. Whatever the arguments and the internal endpoint: a tool call of either tool makes the
  internal calls of \<open>spec_branches\<close>, in that order, each built from the same arguments
  with that branch. So when the agent supplies no branch (the argument is omitted, is not a
  string or is blank), the first call forwards \<^verbatim>\<open>master\<close>; a second call is made exactly
  when the first one was answered (not thrown) with status 404 or 500 and an error text
  naming a missing reference, it forwards \<^verbatim>\<open>main\<close>, and there is no third call; when the
  agent supplies a branch there is one call, with that branch trimmed. The tool result is
  the mapping of the outcome of the last call alone. In particular an answer whose status
  is neither 404 nor 500, such as any answer below 400, and a call that throws are never
  retried.
\<close>

theorem mcp_branch_fallback:
  "snd (callCheckStatusTool api a) = map (check_call a) (spec_branches check_call api a)
   \<and> snd (callPostStatusTool api a) = map (post_call a) (spec_branches post_call api a)
   \<and> forwarded_branches (snd (callCheckStatusTool api a))
        = map (\<lambda>b. Some (JStr b)) (spec_branches check_call api a)
   \<and> forwarded_branches (snd (callPostStatusTool api a))
        = map (\<lambda>b. Some (JStr b)) (spec_branches post_call api a)
   \<and> fst (callCheckStatusTool api a)
        = spec_result check_tool_result check_unreachable
            (api (last (snd (callCheckStatusTool api a))))
   \<and> fst (callPostStatusTool api a)
        = spec_result post_tool_result post_unreachable
            (api (last (snd (callPostStatusTool api a))))
   \<and> (\<forall>st p. api (hd (snd (callCheckStatusTool api a))) = Inr (st, p) \<and> st \<noteq> 404 \<and> st \<noteq> 500
         \<longrightarrow> length (snd (callCheckStatusTool api a)) = 1
             \<and> fst (callCheckStatusTool api a) = check_tool_result (st, p)
             \<and> (st < 400 \<longrightarrow> fst (callCheckStatusTool api a) = ensureRecord p))
   \<and> (\<forall>st p. api (hd (snd (callPostStatusTool api a))) = Inr (st, p) \<and> st \<noteq> 404 \<and> st \<noteq> 500
         \<longrightarrow> length (snd (callPostStatusTool api a)) = 1
             \<and> fst (callPostStatusTool api a) = post_tool_result (st, p)
             \<and> (st < 400 \<longrightarrow> fst (callPostStatusTool api a) = ensureRecord p))
   \<and> (\<forall>e. api (hd (snd (callCheckStatusTool api a))) = Inl e
         \<longrightarrow> length (snd (callCheckStatusTool api a)) = 1
             \<and> fst (callCheckStatusTool api a) = check_unreachable)
   \<and> (\<forall>e. api (hd (snd (callPostStatusTool api a))) = Inl e
         \<longrightarrow> length (snd (callPostStatusTool api a)) = 1
             \<and> fst (callPostStatusTool api a) = post_unreachable)
   \<and> (supplied_branch a \<noteq> None
         \<longrightarrow> length (snd (callCheckStatusTool api a)) = 1
             \<and> length (snd (callPostStatusTool api a)) = 1)"
proof -
  have tr: "snd (call_tool mk finish unr api a) = map (mk a) (spec_branches mk api a)"
    for mk finish unr
    by (rule call_tool_trace)
  have ne: "spec_branches mk api a \<noteq> []" for mk
    by (simp add: spec_branches_def split: option.splits)
  have res: "fst (call_tool mk finish unr api a) =
               spec_result finish unr (api (last (snd (call_tool mk finish unr api a))))"
    for mk finish unr
    by (simp add: call_tool_result tr last_map ne)
  have one: "length (snd (call_tool mk finish unr api a)) = 1
             \<and> fst (call_tool mk finish unr api a) = spec_result finish unr out"
    if "api (hd (snd (call_tool mk finish unr api a))) = out"
      "\<not> branch_not_found_signal out" for mk finish unr out
  proof -
    from that(1) have o: "api (mk a (hd (spec_branches mk api a))) = out"
      by (simp add: tr hd_map ne)
    have l: "length (spec_branches mk api a) = 1"
      using o that(2) by (auto simp: spec_branches_def split: option.splits)
    then have "last (spec_branches mk api a) = hd (spec_branches mk api a)"
      by (cases "spec_branches mk api a") auto
    with o l show ?thesis by (simp add: call_tool_result tr)
  qed
  have sup: "length (snd (call_tool mk finish unr api a)) = 1"
    if "supplied_branch a \<noteq> None" for mk finish unr
    using that by (auto simp: tr spec_branches_def)
  have fb_c: "map_of (ac_body (check_call a b)) ''branch'' = Some (JStr b)" for b
    by (rule body_branch_check)
  have fb_p: "map_of (ac_body (post_call a b)) ''branch'' = Some (JStr b)" for b
    by (rule body_branch_post)
  have c400: "check_tool_result (st, p) = ensureRecord p" if "st < 400" for st p
    using that by (simp add: check_tool_result_def Let_def)
  have p400: "post_tool_result (st, p) = ensureRecord p" if "st < 400" for st p
    using that by (simp add: post_tool_result_def Let_def)
  have 1: "snd (callCheckStatusTool api a) = map (check_call a) (spec_branches check_call api a)"
    by (simp add: callCheckStatusTool_def tr)
  have 2: "snd (callPostStatusTool api a) = map (post_call a) (spec_branches post_call api a)"
    by (simp add: callPostStatusTool_def tr)
  have 3: "forwarded_branches (snd (callCheckStatusTool api a))
             = map (\<lambda>b. Some (JStr b)) (spec_branches check_call api a)"
    by (simp add: 1 forwarded_branches_def fb_c comp_def)
  have 4: "forwarded_branches (snd (callPostStatusTool api a))
             = map (\<lambda>b. Some (JStr b)) (spec_branches post_call api a)"
    by (simp add: 2 forwarded_branches_def fb_p comp_def)
  have 5: "fst (callCheckStatusTool api a)
             = spec_result check_tool_result check_unreachable
                 (api (last (snd (callCheckStatusTool api a))))"
    unfolding callCheckStatusTool_def by (rule res)
  have 6: "fst (callPostStatusTool api a)
             = spec_result post_tool_result post_unreachable
                 (api (last (snd (callPostStatusTool api a))))"
    unfolding callPostStatusTool_def by (rule res)
  have 7: "length (snd (callCheckStatusTool api a)) = 1
           \<and> fst (callCheckStatusTool api a) = check_tool_result (st, p)
           \<and> (st < 400 \<longrightarrow> fst (callCheckStatusTool api a) = ensureRecord p)"
    if "api (hd (snd (callCheckStatusTool api a))) = Inr (st, p)" "st \<noteq> 404" "st \<noteq> 500"
    for st p
    using one [of check_call check_tool_result check_unreachable "Inr (st, p)"] that
      no_signal_without_404_500 [of st p] c400 [of st p]
    by (simp add: callCheckStatusTool_def spec_result_def)
  have 8: "length (snd (callPostStatusTool api a)) = 1
           \<and> fst (callPostStatusTool api a) = post_tool_result (st, p)
           \<and> (st < 400 \<longrightarrow> fst (callPostStatusTool api a) = ensureRecord p)"
    if "api (hd (snd (callPostStatusTool api a))) = Inr (st, p)" "st \<noteq> 404" "st \<noteq> 500"
    for st p
    using one [of post_call post_tool_result post_unreachable "Inr (st, p)"] that
      no_signal_without_404_500 [of st p] p400 [of st p]
    by (simp add: callPostStatusTool_def spec_result_def)
  have 9: "length (snd (callCheckStatusTool api a)) = 1
           \<and> fst (callCheckStatusTool api a) = check_unreachable"
    if "api (hd (snd (callCheckStatusTool api a))) = Inl e" for e
    using one [of check_call check_tool_result check_unreachable "Inl e"] that
    by (simp add: callCheckStatusTool_def spec_result_def branch_not_found_signal_def)
  have 10: "length (snd (callPostStatusTool api a)) = 1
           \<and> fst (callPostStatusTool api a) = post_unreachable"
    if "api (hd (snd (callPostStatusTool api a))) = Inl e" for e
    using one [of post_call post_tool_result post_unreachable "Inl e"] that
    by (simp add: callPostStatusTool_def spec_result_def branch_not_found_signal_def)
  have 11: "length (snd (callCheckStatusTool api a)) = 1
           \<and> length (snd (callPostStatusTool api a)) = 1"
    if "supplied_branch a \<noteq> None"
    using sup [OF that] by (simp add: callCheckStatusTool_def callPostStatusTool_def)
  show ?thesis
    apply (intro conjI allI impI)
    using 1 2 3 4 5 6 7 8 9 10 11 by blast+
qed


lemma ex_api_main: "ex_api (check_call ex_args ''main'') = Inr (200, ex_check_ok)"
  by (simp add: ex_api_def body_branch_check)

lemma ex_check_ok_passthrough: "check_tool_result (200, ex_check_ok) = ex_check_ok"
  by (simp add: check_tool_result_def ensureRecord_def ex_check_ok_def)

lemma ex_branches_omitted:
  "spec_branches check_call ex_api ex_args = [''master'', ''main'']"
  by code_simp

lemma ex_branches_supplied:
  "spec_branches check_call ex_api ex_args_main = [''main'']"
  by code_simp

lemma ex_branches_blank:
  "spec_branches check_call ex_api ex_args_blank = [''master'', ''main'']"
  by code_simp

lemma ex_branches_null:
  "spec_branches check_call ex_api ex_args_null = [''master'', ''main'']"
  by code_simp

lemma ex_branches_master:
  "spec_branches check_call ex_api ex_args_master = [''master'']"
  by code_simp

lemma ex_branches_ok:
  "spec_branches check_call ex_api_ok ex_args = [''master'']"
  by code_simp

lemma ex_branches_ok_missing:
  "spec_branches check_call ex_api_ok_missing ex_args = [''master'']"
  by code_simp

lemma ex_branches_boom:
  "spec_branches check_call ex_api_boom ex_args = [''master'']"
  by code_simp

lemma ex_branches_404:
  "spec_branches check_call ex_api_404 ex_args = [''master'', ''main'']"
  by code_simp

lemma ex_branches_post:
  "spec_branches post_call ex_api ex_post_args = [''master'', ''main'']"
  by code_simp

lemma ex_api_404_main: "ex_api_404 (check_call ex_args ''main'') = Inl (OtherError ''fetch failed'')"
  by (simp add: ex_api_404_def body_branch_check)

lemma ex_api_post_main: "ex_api (post_call ex_post_args ''main'') = Inr (200, ex_check_ok)"
  by (simp add: ex_api_def body_branch_post)

lemma ex_post_ok_passthrough: "post_tool_result (200, ex_check_ok) = ex_check_ok"
  by (simp add: post_tool_result_def ensureRecord_def ex_check_ok_def)

theorem mcp_branch_fallback_witness:
  "supplied_branch ex_args = None
   \<and> snd (callCheckStatusTool ex_api ex_args)
        = [check_call ex_args ''master'', check_call ex_args ''main'']
   \<and> forwarded_branches (snd (callCheckStatusTool ex_api ex_args))
        = [Some (JStr ''master''), Some (JStr ''main'')]
   \<and> fst (callCheckStatusTool ex_api ex_args) = ex_check_ok
   \<and> supplied_branch ex_args_main = Some ''main''
   \<and> forwarded_branches (snd (callCheckStatusTool ex_api ex_args_main)) = [Some (JStr ''main'')]
   \<and> supplied_branch ex_args_blank = None
   \<and> forwarded_branches (snd (callCheckStatusTool ex_api ex_args_blank))
        = [Some (JStr ''master''), Some (JStr ''main'')]
   \<and> supplied_branch ex_args_null = None
   \<and> forwarded_branches (snd (callCheckStatusTool ex_api ex_args_null))
        = [Some (JStr ''master''), Some (JStr ''main'')]
   \<and> supplied_branch ex_args_master = Some ''master''
   \<and> forwarded_branches (snd (callCheckStatusTool ex_api ex_args_master))
        = [Some (JStr ''master'')]
   \<and> fst (callCheckStatusTool ex_api ex_args_master)
        = check_tool_result (500, ex_branch_missing)
   \<and> forwarded_branches (snd (callCheckStatusTool ex_api_ok ex_args)) = [Some (JStr ''master'')]
   \<and> fst (callCheckStatusTool ex_api_ok ex_args) = ex_check_ok
   \<and> forwarded_branches (snd (callCheckStatusTool ex_api_boom ex_args))
        = [Some (JStr ''master'')]
   \<and> forwarded_branches (snd (callCheckStatusTool ex_api_404 ex_args))
        = [Some (JStr ''master''), Some (JStr ''main'')]
   \<and> fst (callCheckStatusTool ex_api_404 ex_args) = check_unreachable
   \<and> forwarded_branches (snd (callPostStatusTool ex_api ex_post_args))
        = [Some (JStr ''master''), Some (JStr ''main'')]
   \<and> fst (callPostStatusTool ex_api ex_post_args) = ex_check_ok
   \<and> ex_api_ok (hd (snd (callCheckStatusTool ex_api_ok ex_args))) = Inr (200, ex_check_ok)
   \<and> length (snd (callCheckStatusTool ex_api_ok ex_args)) = 1
   \<and> fst (callCheckStatusTool ex_api_ok ex_args) = ensureRecord ex_check_ok
   \<and> ex_api_ok (hd (snd (callPostStatusTool ex_api_ok ex_post_args))) = Inr (200, ex_check_ok)
   \<and> length (snd (callPostStatusTool ex_api_ok ex_post_args)) = 1
   \<and> fst (callPostStatusTool ex_api_ok ex_post_args) = ensureRecord ex_check_ok
   \<and> ex_api_down (hd (snd (callCheckStatusTool ex_api_down ex_args)))
        = Inl (OtherError ''fetch failed'')
   \<and> length (snd (callCheckStatusTool ex_api_down ex_args)) = 1
   \<and> fst (callCheckStatusTool ex_api_down ex_args) = check_unreachable
   \<and> ex_api_down (hd (snd (callPostStatusTool ex_api_down ex_post_args)))
        = Inl (OtherError ''fetch failed'')
   \<and> length (snd (callPostStatusTool ex_api_down ex_post_args)) = 1
   \<and> fst (callPostStatusTool ex_api_down ex_post_args) = post_unreachable
   \<and> supplied_branch ex_args_main \<noteq> None
   \<and> length (snd (callCheckStatusTool ex_api ex_args_main)) = 1
   \<and> length (snd (callPostStatusTool ex_api ex_args_main)) = 1
   \<and> forwarded_branches (snd (callCheckStatusTool ex_api_ok_missing ex_args))
        = [Some (JStr ''master'')]
   \<and> fst (callCheckStatusTool ex_api_ok_missing ex_args) = ex_branch_missing"
proof -
  note m = mcp_branch_fallback [of ex_api_ok_missing ex_args]
  have m0: "snd (callCheckStatusTool ex_api_ok_missing ex_args) = [check_call ex_args ''master'']"
    using conjunct1 [OF m] by (simp add: ex_branches_ok_missing)
  have m1: "forwarded_branches (snd (callCheckStatusTool ex_api_ok_missing ex_args))
              = [Some (JStr ''master'')]"
    using conjunct1 [OF conjunct2 [OF conjunct2 [OF m]]] by (simp add: ex_branches_ok_missing)
  have m2: "fst (callCheckStatusTool ex_api_ok_missing ex_args) = ex_branch_missing"
    using conjunct1 [OF conjunct2 [OF conjunct2 [OF conjunct2 [OF conjunct2 [OF m]]]]]
    by (simp add: m0 ex_api_ok_missing_def spec_result_def check_tool_result_def
          ensureRecord_def ex_branch_missing_def)
  note j = mcp_branch_fallback [of ex_api_ok ex_post_args]
  note k = mcp_branch_fallback [of ex_api_down ex_args]
  note l = mcp_branch_fallback [of ex_api_down ex_post_args]
  have fh: "ex_api_ok (hd (snd (callCheckStatusTool ex_api_ok ex_args))) = Inr (200, ex_check_ok)"
    "ex_api_ok (hd (snd (callPostStatusTool ex_api_ok ex_post_args))) = Inr (200, ex_check_ok)"
    by (simp_all add: ex_api_ok_def)
  have kh: "ex_api_down (hd (snd (callCheckStatusTool ex_api_down ex_args)))
              = Inl (OtherError ''fetch failed'')"
    "ex_api_down (hd (snd (callPostStatusTool ex_api_down ex_post_args)))
              = Inl (OtherError ''fetch failed'')"
    by (simp_all add: ex_api_down_def)
  note a = mcp_branch_fallback [of ex_api ex_args]
  note b = mcp_branch_fallback [of ex_api ex_args_main]
  note c = mcp_branch_fallback [of ex_api ex_args_blank]
  note d = mcp_branch_fallback [of ex_api ex_args_null]
  note e = mcp_branch_fallback [of ex_api ex_args_master]
  note f = mcp_branch_fallback [of ex_api_ok ex_args]
  note g = mcp_branch_fallback [of ex_api_boom ex_args]
  note h = mcp_branch_fallback [of ex_api_404 ex_args]
  note i = mcp_branch_fallback [of ex_api ex_post_args]
  have s: "supplied_branch ex_args = None" "supplied_branch ex_args_main = Some ''main''"
    "supplied_branch ex_args_blank = None" "supplied_branch ex_args_null = None"
    "supplied_branch ex_args_master = Some ''master''"
    by code_simp+
  have a1: "snd (callCheckStatusTool ex_api ex_args)
              = [check_call ex_args ''master'', check_call ex_args ''main'']"
    using conjunct1 [OF a] by (simp add: ex_branches_omitted)
  have a2: "forwarded_branches (snd (callCheckStatusTool ex_api ex_args))
              = [Some (JStr ''master''), Some (JStr ''main'')]"
    using conjunct1 [OF conjunct2 [OF conjunct2 [OF a]]] by (simp add: ex_branches_omitted)
  have a3: "fst (callCheckStatusTool ex_api ex_args) = ex_check_ok"
    using conjunct1 [OF conjunct2 [OF conjunct2 [OF conjunct2 [OF conjunct2 [OF a]]]]]
    by (simp add: a1 ex_api_main spec_result_def ex_check_ok_passthrough)
  have b1: "forwarded_branches (snd (callCheckStatusTool ex_api ex_args_main))
              = [Some (JStr ''main'')]"
    using conjunct1 [OF conjunct2 [OF conjunct2 [OF b]]] by (simp add: ex_branches_supplied)
  have c1: "forwarded_branches (snd (callCheckStatusTool ex_api ex_args_blank))
              = [Some (JStr ''master''), Some (JStr ''main'')]"
    using conjunct1 [OF conjunct2 [OF conjunct2 [OF c]]] by (simp add: ex_branches_blank)
  have d1: "forwarded_branches (snd (callCheckStatusTool ex_api ex_args_null))
              = [Some (JStr ''master''), Some (JStr ''main'')]"
    using conjunct1 [OF conjunct2 [OF conjunct2 [OF d]]] by (simp add: ex_branches_null)
  have e0: "snd (callCheckStatusTool ex_api ex_args_master)
              = [check_call ex_args_master ''master'']"
    using conjunct1 [OF e] by (simp add: ex_branches_master)
  have e1: "forwarded_branches (snd (callCheckStatusTool ex_api ex_args_master))
              = [Some (JStr ''master'')]"
    using conjunct1 [OF conjunct2 [OF conjunct2 [OF e]]] by (simp add: ex_branches_master)
  have e2: "fst (callCheckStatusTool ex_api ex_args_master)
              = check_tool_result (500, ex_branch_missing)"
    using conjunct1 [OF conjunct2 [OF conjunct2 [OF conjunct2 [OF conjunct2 [OF e]]]]]
    by (simp add: e0 ex_api_def body_branch_check spec_result_def)
  have f0: "snd (callCheckStatusTool ex_api_ok ex_args) = [check_call ex_args ''master'']"
    using conjunct1 [OF f] by (simp add: ex_branches_ok)
  have f1: "forwarded_branches (snd (callCheckStatusTool ex_api_ok ex_args))
              = [Some (JStr ''master'')]"
    using conjunct1 [OF conjunct2 [OF conjunct2 [OF f]]] by (simp add: ex_branches_ok)
  have f2: "fst (callCheckStatusTool ex_api_ok ex_args) = ex_check_ok"
    using conjunct1 [OF conjunct2 [OF conjunct2 [OF conjunct2 [OF conjunct2 [OF f]]]]]
    by (simp add: f0 ex_api_ok_def spec_result_def ex_check_ok_passthrough)
  have g1: "forwarded_branches (snd (callCheckStatusTool ex_api_boom ex_args))
              = [Some (JStr ''master'')]"
    using conjunct1 [OF conjunct2 [OF conjunct2 [OF g]]] by (simp add: ex_branches_boom)
  have h0: "snd (callCheckStatusTool ex_api_404 ex_args)
              = [check_call ex_args ''master'', check_call ex_args ''main'']"
    using conjunct1 [OF h] by (simp add: ex_branches_404)
  have h1: "forwarded_branches (snd (callCheckStatusTool ex_api_404 ex_args))
              = [Some (JStr ''master''), Some (JStr ''main'')]"
    using conjunct1 [OF conjunct2 [OF conjunct2 [OF h]]] by (simp add: ex_branches_404)
  have h2: "fst (callCheckStatusTool ex_api_404 ex_args) = check_unreachable"
    using conjunct1 [OF conjunct2 [OF conjunct2 [OF conjunct2 [OF conjunct2 [OF h]]]]]
    by (simp add: h0 ex_api_404_main spec_result_def)
  have i0: "snd (callPostStatusTool ex_api ex_post_args)
              = [post_call ex_post_args ''master'', post_call ex_post_args ''main'']"
    using conjunct1 [OF conjunct2 [OF i]] by (simp add: ex_branches_post)
  have i1: "forwarded_branches (snd (callPostStatusTool ex_api ex_post_args))
              = [Some (JStr ''master''), Some (JStr ''main'')]"
    using conjunct1 [OF conjunct2 [OF conjunct2 [OF conjunct2 [OF i]]]] by (simp add: ex_branches_post)
  have i2: "fst (callPostStatusTool ex_api ex_post_args) = ex_check_ok"
    using conjunct1 [OF conjunct2 [OF conjunct2 [OF conjunct2 [OF conjunct2 [OF conjunct2 [OF i]]]]]]
    by (simp add: i0 ex_api_post_main spec_result_def ex_post_ok_passthrough)
  have f7: "length (snd (callCheckStatusTool ex_api_ok ex_args)) = 1"
    "fst (callCheckStatusTool ex_api_ok ex_args) = ensureRecord ex_check_ok"
    using f fh(1) by auto
  have j8: "length (snd (callPostStatusTool ex_api_ok ex_post_args)) = 1"
    "fst (callPostStatusTool ex_api_ok ex_post_args) = ensureRecord ex_check_ok"
    using j fh(2) by auto
  have k9: "length (snd (callCheckStatusTool ex_api_down ex_args)) = 1"
    "fst (callCheckStatusTool ex_api_down ex_args) = check_unreachable"
    using k kh(1) by auto
  have l10: "length (snd (callPostStatusTool ex_api_down ex_post_args)) = 1"
    "fst (callPostStatusTool ex_api_down ex_post_args) = post_unreachable"
    using l kh(2) by auto
  have b0: "supplied_branch ex_args_main \<noteq> None"
    by (simp add: s)
  have b11: "length (snd (callCheckStatusTool ex_api ex_args_main)) = 1"
    "length (snd (callPostStatusTool ex_api ex_args_main)) = 1"
    using b b0 by auto
  show ?thesis
    using s a1 a2 a3 b1 c1 d1 e1 e2 f1 f2 g1 h1 h2 i1 i2 fh f7 j8 kh k9 l10 b0 b11 m1 m2
    by (intro conjI) assumption+
qed

subsection \<open>Activity log: bounded, newest first\<close>

lemma parse_stringify [simp]: "parseActivityEvent (stringify_event e) = Some e"
  by (cases "ev_status e")
     (simp_all add: parseActivityEvent_def stringify_event_def parse_status_def status_name_def)

lemma map_filter_stringify [simp]:
  "List.map_filter parseActivityEvent (map stringify_event es) = es"
  by (induction es) (simp_all add: List.map_filter_simps)

lemma length_activity_events [simp]:
  "length (activity_events inp now) = length (pa_filePaths inp)"
  by (simp add: activity_events_def Let_def)

lemma file_paths_activity_events:
  "map ev_file_path (activity_events inp now) = pa_filePaths inp"
proof -
  have "map ev_file_path (map (make_event inp ts) (zip fs [0 ..< length fs])) = fs" for ts fs
  proof -
    have "map ev_file_path (map (make_event inp ts) (zip fs [0 ..< length fs]))
            = map fst (zip fs [0 ..< length fs])"
      by (simp add: make_event_def comp_def)
    then show ?thesis by simp
  qed
  then show ?thesis by (simp add: activity_events_def Let_def)
qed

lemma publish_at_key:
  assumes "has_lpush c" "has_ltrim c" "pa_filePaths inp \<noteq> []"
  shows "publishActivityEvents c nrm now inp st =
           st(getActivityKey nrm (pa_repoUrl inp) (pa_branch inp) :=
                take 500 (rev (map stringify_event (activity_events inp now))
                          @ st (getActivityKey nrm (pa_repoUrl inp) (pa_branch inp))))"
  using assms
  by (simp add: publishActivityEvents_def Let_def ltrim0_def lpush_def MAX_ACTIVITY_RETENTION_def)

lemma safeLimit_pos: "1 \<le> safeLimit limit"
  by (auto simp: safeLimit_def DEFAULT_ACTIVITY_LIMIT_def split: option.splits js_number.splits)

lemma read_at_key:
  assumes "has_lrange c"
  shows "getRecentActivityEvents c nrm repoUrl branch limit st =
           rev (List.map_filter parseActivityEvent
                  (take (nat (safeLimit limit)) (st (getActivityKey nrm repoUrl branch))))"
proof -
  have "Suc (nat (safeLimit limit - 1)) = nat (safeLimit limit)"
    using safeLimit_pos [of limit] by simp
  then show ?thesis
    using assms by (simp add: getRecentActivityEvents_def Let_def lrange0_def)
qed

lemma length_map_filter_le: "length (List.map_filter f xs) \<le> length xs"
  by (induction xs) (auto simp: List.map_filter_simps split: option.splits)

text \<open>
  C8 (as amended). A \<^verbatim>\<open>publishActivityEvents\<close> call for a non-empty list of file paths, on a
  client with the list primitives, makes one event per file path, pushes them to the head
  of the namespace's list (the event of the last path first) and keeps the first 500
  entries, so a push of one event on a list of 500 drops the oldest; the lists of other
  keys are unchanged. \<^verbatim>\<open>getRecentActivityEvents\<close> reads the first \<open>safeLimit\<close> entries, that is
  \<open>max 1 \<lfloor>limit\<rfloor>\<close> for a finite limit and 120 for an omitted or non-finite one, drops what
  does not parse as an event and returns the rest reversed, oldest first.
\<close>

theorem activity_log_bounded:
  assumes "has_lpush c" and "has_ltrim c" and "has_lrange c" and "pa_filePaths inp \<noteq> []"
    and "key' = getActivityKey nrm (pa_repoUrl inp) (pa_branch inp)"
    and "st' = publishActivityEvents c nrm now inp st"
  shows "map ev_file_path (activity_events inp now) = pa_filePaths inp
       \<and> st' key' = take 500 (rev (map stringify_event (activity_events inp now)) @ st key')
       \<and> (\<forall>k. k \<noteq> key' \<longrightarrow> st' k = st k)
       \<and> length (st' key') \<le> 500
       \<and> (length (st key') = 500 \<and> length (pa_filePaths inp) = 1 \<longrightarrow>
            st' key' = map stringify_event (activity_events inp now) @ butlast (st key'))
       \<and> getRecentActivityEvents c nrm (pa_repoUrl inp) (pa_branch inp) limit st' =
            rev (List.map_filter parseActivityEvent (take (nat (safeLimit limit)) (st' key')))
       \<and> length (getRecentActivityEvents c nrm (pa_repoUrl inp) (pa_branch inp) limit st')
            \<le> nat (safeLimit limit)
       \<and> safeLimit None = 120 \<and> safeLimit (Some NotFinite) = 120
       \<and> (\<forall>x. safeLimit (Some (Finite x)) = max 1 \<lfloor>x\<rfloor>)
       \<and> (st key' = map stringify_event old \<longrightarrow>
            getRecentActivityEvents c nrm (pa_repoUrl inp) (pa_branch inp) limit st' =
              rev (take (min (nat (safeLimit limit)) 500) (rev (activity_events inp now) @ old)))"
proof -
  let ?new = "map stringify_event (activity_events inp now)"
  have st': "st' = st(key' := take 500 (rev ?new @ st key'))"
    using assms by (simp add: publish_at_key)
  have a: "st' key' = take 500 (rev ?new @ st key')" and b: "\<forall>k. k \<noteq> key' \<longrightarrow> st' k = st k"
    by (simp_all add: st')
  have c: "length (st' key') \<le> 500" by (simp add: a)
  have d: "st' key' = ?new @ butlast (st key')"
    if "length (st key') = 500 \<and> length (pa_filePaths inp) = 1"
  proof -
    from that have "length ?new = Suc 0" by simp
    then obtain e where e: "?new = [e]"
      by (cases ?new) simp_all
    have "take 499 (st key') = butlast (st key')"
      using that by (simp add: butlast_conv_take)
    then show ?thesis by (simp add: a e)
  qed
  have r: "getRecentActivityEvents c nrm (pa_repoUrl inp) (pa_branch inp) limit st' =
            rev (List.map_filter parseActivityEvent (take (nat (safeLimit limit)) (st' key')))"
    using assms(3,5) by (simp add: read_at_key)
  have l: "length (getRecentActivityEvents c nrm (pa_repoUrl inp) (pa_branch inp) limit st')
            \<le> nat (safeLimit limit)"
    unfolding r using length_map_filter_le [of parseActivityEvent "take (nat (safeLimit limit)) (st' key')"]
    by simp
  have s: "safeLimit None = 120" "safeLimit (Some NotFinite) = 120"
    "\<forall>x. safeLimit (Some (Finite x)) = max 1 \<lfloor>x\<rfloor>"
    by (simp_all add: safeLimit_def DEFAULT_ACTIVITY_LIMIT_def)
  have o: "getRecentActivityEvents c nrm (pa_repoUrl inp) (pa_branch inp) limit st' =
              rev (take (min (nat (safeLimit limit)) 500) (rev (activity_events inp now) @ old))"
    if "st key' = map stringify_event old"
  proof -
    let ?ys = "rev (activity_events inp now) @ old"
    have k: "st' key' = map stringify_event (take 500 ?ys)"
    proof -
      have "rev (map stringify_event (activity_events inp now)) @ map stringify_event old
              = map stringify_event ?ys"
        by (simp only: rev_map map_append)
      then show ?thesis unfolding a that by (simp only: take_map)
    qed
    have "List.map_filter parseActivityEvent (take (nat (safeLimit limit)) (st' key'))
            = take (nat (safeLimit limit)) (take 500 ?ys)"
      unfolding k by (simp only: take_map map_filter_stringify)
    then show ?thesis
      unfolding r by (simp only: take_take)
  qed
  show ?thesis
    apply (intro conjI)
    subgoal by (rule file_paths_activity_events)
    subgoal by (rule a)
    subgoal by (rule b)
    subgoal by (rule c)
    subgoal using d by blast
    subgoal by (rule r)
    subgoal by (rule l)
    subgoal by (rule s(1))
    subgoal by (rule s(2))
    subgoal by (rule s(3))
    subgoal using o by blast
    done
qed

lemma digit_chars:
  "char_of (48::nat) = CHR ''0''" "char_of (49::nat) = CHR ''1''" "char_of (50::nat) = CHR ''2''"
  "char_of (51::nat) = CHR ''3''" "char_of (52::nat) = CHR ''4''" "char_of (53::nat) = CHR ''5''"
  "char_of (54::nat) = CHR ''6''" "char_of (55::nat) = CHR ''7''" "char_of (56::nat) = CHR ''8''"
  "char_of (57::nat) = CHR ''9''"
  by code_simp+

lemma decimal_12345: "decimal 12345 = ''12345''"
  by (simp add: digit_chars)

lemma ex_events_two: "activity_events ex_publish_two 0 = [ex_event_a, ex_event_b]"
  by (simp add: activity_events_def ex_publish_two_def make_event_def ex_event_a_def
        ex_event_b_def status_name_def digit_chars upt_rec)

lemma ex_events_open: "activity_events ex_publish_input 0 = [ex_event_open]"
  by (simp add: activity_events_def ex_publish_input_def make_event_def ex_event_open_def
        status_name_def digit_chars)

lemma ex_key_main:
  "getActivityKey ex_normalizeRepoUrl ''https://github.com/a/b'' ''main''
     = ''activity:https://github.com/a/b:main''"
  by (simp add: getActivityKey_def ex_normalizeRepoUrl_def trim_def is_space_def)


lemma ex_lists_one_main:
  "ex_lists_one ''activity:https://github.com/a/b:main'' = map stringify_event [ex_old_event]"
  by (simp add: ex_lists_one_def)

lemma ex_full_lists_main:
  "ex_full_lists ''activity:https://github.com/a/b:main''
     = map stringify_event (map ex_numbered [0 ..< 500])"
  by (simp add: ex_full_lists_def del: upt_rec_numeral)

theorem activity_log_bounded_witness:
  "has_lpush ex_client \<and> has_ltrim ex_client \<and> has_lrange ex_client
   \<and> pa_filePaths ex_publish_two \<noteq> []
   \<and> pa_filePaths ex_publish_input \<noteq> []
   \<and> map ev_file_path (activity_events ex_publish_two 0) = [''src/a.ts'', ''src/b.ts'']
   \<and> ex_lists_one ''activity:https://github.com/a/b:main'' = [stringify_event ex_old_event]
   \<and> ex_lists_two ''activity:https://github.com/a/b:main''
        = [stringify_event ex_event_b, stringify_event ex_event_a, stringify_event ex_old_event]
   \<and> ''activity:https://github.com/a/b:dev'' \<noteq> ''activity:https://github.com/a/b:main''
   \<and> ex_lists_two ''activity:https://github.com/a/b:dev'' = [stringify_event ex_old_event]
   \<and> getRecentActivityEvents ex_client ex_normalizeRepoUrl ''https://github.com/a/b'' ''main''
         (Some (Finite 2)) ex_lists_two = [ex_event_a, ex_event_b]
   \<and> getRecentActivityEvents ex_client ex_normalizeRepoUrl ''https://github.com/a/b'' ''main''
         (Some (Finite (5 / 2))) ex_lists_two = [ex_event_a, ex_event_b]
   \<and> getRecentActivityEvents ex_client ex_normalizeRepoUrl ''https://github.com/a/b'' ''main''
         (Some (Finite 1)) ex_lists_two = [ex_event_b]
   \<and> getRecentActivityEvents ex_client ex_normalizeRepoUrl ''https://github.com/a/b'' ''main''
         None ex_lists_two = [ex_old_event, ex_event_a, ex_event_b]
   \<and> length (ex_full_lists ''activity:https://github.com/a/b:main'') = 500
   \<and> length (pa_filePaths ex_publish_input) = 1
   \<and> ex_full_after ''activity:https://github.com/a/b:main''
        = stringify_event ex_event_open # map stringify_event (map ex_numbered [0 ..< 499])
   \<and> length (ex_full_after ''activity:https://github.com/a/b:main'') = 500
   \<and> getRecentActivityEvents ex_client ex_normalizeRepoUrl ''https://github.com/a/b'' ''main''
         (Some (Finite 1000)) ex_full_after
        = rev (map ex_numbered [0 ..< 499]) @ [ex_event_open]
   \<and> getRecentActivityEvents ex_client ex_normalizeRepoUrl ''https://github.com/a/b'' ''main''
         None ex_full_after
        = rev (map ex_numbered [0 ..< 119]) @ [ex_event_open]"
proof -
  let ?key = "''activity:https://github.com/a/b:main''"
  let ?dev = "''activity:https://github.com/a/b:dev''"
  have h: "has_lpush ex_client" "has_ltrim ex_client" "has_lrange ex_client"
    by (simp_all add: ex_client_def)
  have p2: "pa_filePaths ex_publish_two \<noteq> []" and p1: "pa_filePaths ex_publish_input \<noteq> []"
    by (simp_all add: ex_publish_two_def ex_publish_input_def)
  have k2: "?key = getActivityKey ex_normalizeRepoUrl (pa_repoUrl ex_publish_two)
                    (pa_branch ex_publish_two)"
    and k1: "?key = getActivityKey ex_normalizeRepoUrl (pa_repoUrl ex_publish_input)
                    (pa_branch ex_publish_input)"
    by (simp_all add: ex_publish_two_def ex_publish_input_def ex_key_main)
  have r2: "pa_repoUrl ex_publish_two = ''https://github.com/a/b''"
    "pa_branch ex_publish_two = ''main''"
    "pa_repoUrl ex_publish_input = ''https://github.com/a/b''"
    "pa_branch ex_publish_input = ''main''"
    by (simp_all add: ex_publish_two_def ex_publish_input_def)
  have e2: "ex_lists_two
              = publishActivityEvents ex_client ex_normalizeRepoUrl 0 ex_publish_two ex_lists_one"
    by (simp only: ex_lists_two_def)
  have e1: "ex_full_after
              = publishActivityEvents ex_client ex_normalizeRepoUrl 0 ex_publish_input ex_full_lists"
    by (simp only: ex_full_after_def)
  have fl: "\<lfloor>5 / 2 :: rat\<rfloor> = 2"
    by (rule floor_unique) simp_all
  have s: "safeLimit (Some (Finite 2)) = 2" "safeLimit (Some (Finite (5 / 2))) = 2"
    "safeLimit (Some (Finite 1)) = 1" "safeLimit None = 120"
    "safeLimit (Some (Finite 1000)) = 1000"
    by (simp_all add: safeLimit_def DEFAULT_ACTIVITY_LIMIT_def fl)
  note t = activity_log_bounded [OF h p2 k2 e2]
  note u = activity_log_bounded [OF h p1 k1 e1]
  have 1: "map ev_file_path (activity_events ex_publish_two 0) = [''src/a.ts'', ''src/b.ts'']"
    using conjunct1 [OF t [of None "[]"]] by (simp add: ex_publish_two_def)
  have 2: "ex_lists_two ?key
            = [stringify_event ex_event_b, stringify_event ex_event_a, stringify_event ex_old_event]"
    using conjunct1 [OF conjunct2 [OF t [of None "[]"]]]
    by (simp add: ex_events_two ex_lists_one_def)
  have ne: "?dev \<noteq> ?key" by simp
  have 3: "ex_lists_two ?dev = [stringify_event ex_old_event]"
  proof -
    have "ex_lists_two ?dev = ex_lists_one ?dev"
      by (rule t [of None "[]", THEN conjunct2, THEN conjunct2, THEN conjunct1, THEN spec,
                  THEN mp, OF ne])
    then show ?thesis by (simp add: ex_lists_one_def)
  qed
  have rd: "getRecentActivityEvents ex_client ex_normalizeRepoUrl ''https://github.com/a/b''
              ''main'' limit ex_lists_two
            = rev (take (min (nat (safeLimit limit)) 500) [ex_event_b, ex_event_a, ex_old_event])"
    for limit
  proof -
    note t [of limit "[ex_old_event]", THEN conjunct2, THEN conjunct2, THEN conjunct2, THEN conjunct2, THEN conjunct2, THEN conjunct2, THEN conjunct2, THEN conjunct2, THEN conjunct2, THEN conjunct2]
    with ex_lists_one_main show ?thesis by (simp add: r2 ex_events_two)
  qed
  have 4: "getRecentActivityEvents ex_client ex_normalizeRepoUrl ''https://github.com/a/b''
             ''main'' (Some (Finite 2)) ex_lists_two = [ex_event_a, ex_event_b]"
    by (simp add: rd s)
  have 5: "getRecentActivityEvents ex_client ex_normalizeRepoUrl ''https://github.com/a/b''
             ''main'' (Some (Finite (5 / 2))) ex_lists_two = [ex_event_a, ex_event_b]"
    by (simp only: rd s) simp
  have 6: "getRecentActivityEvents ex_client ex_normalizeRepoUrl ''https://github.com/a/b''
             ''main'' (Some (Finite 1)) ex_lists_two = [ex_event_b]"
    by (simp add: rd s)
  have 7: "getRecentActivityEvents ex_client ex_normalizeRepoUrl ''https://github.com/a/b''
             ''main'' None ex_lists_two = [ex_old_event, ex_event_a, ex_event_b]"
    by (simp add: rd s)
  have l: "length (ex_full_lists ?key) = 500" "length (pa_filePaths ex_publish_input) = 1"
    by (simp_all add: ex_full_lists_def ex_publish_input_def del: upt_rec_numeral)
  have 8: "ex_full_after ?key
             = stringify_event ex_event_open # map stringify_event (map ex_numbered [0 ..< 499])"
  proof -
    have "ex_full_after ?key = map stringify_event (activity_events ex_publish_input 0)
                               @ butlast (ex_full_lists ?key)"
      by (rule u [of None "[]", THEN conjunct2, THEN conjunct2, THEN conjunct2, THEN conjunct2,
                  THEN conjunct1, THEN mp, OF conjI [OF l]])
    moreover have "butlast (ex_full_lists ?key) = map stringify_event (map ex_numbered [0 ..< 499])"
      by (simp add: ex_full_lists_main butlast_conv_take take_map del: upt_rec_numeral)
    ultimately show ?thesis by (simp add: ex_events_open del: upt_rec_numeral)
  qed
  have 9: "length (ex_full_after ?key) = 500"
    by (simp add: 8 del: upt_rec_numeral)
  have rf: "getRecentActivityEvents ex_client ex_normalizeRepoUrl ''https://github.com/a/b''
              ''main'' limit ex_full_after
            = rev (take (min (nat (safeLimit limit)) 500)
                     (ex_event_open # map ex_numbered [0 ..< 500]))"
    for limit
  proof -
    note u [of limit "map ex_numbered [0 ..< 500]", THEN conjunct2, THEN conjunct2, THEN conjunct2, THEN conjunct2, THEN conjunct2, THEN conjunct2, THEN conjunct2, THEN conjunct2, THEN conjunct2, THEN conjunct2]
    with ex_full_lists_main show ?thesis
      by (simp add: r2 ex_events_open del: upt_rec_numeral)
  qed
  have tk: "take (Suc n) (ex_event_open # map ex_numbered [0 ..< 500])
              = ex_event_open # map ex_numbered [0 ..< n]" if "n \<le> 500" for n
    using that by (simp add: take_map del: upt_rec_numeral)
  have 10: "getRecentActivityEvents ex_client ex_normalizeRepoUrl ''https://github.com/a/b''
              ''main'' (Some (Finite 1000)) ex_full_after
            = rev (map ex_numbered [0 ..< 499]) @ [ex_event_open]"
    using tk [of 499] by (simp add: rf s del: upt_rec_numeral)
  have 11: "getRecentActivityEvents ex_client ex_normalizeRepoUrl ''https://github.com/a/b''
              ''main'' None ex_full_after
            = rev (map ex_numbered [0 ..< 119]) @ [ex_event_open]"
    using tk [of 119] by (simp add: rf s del: upt_rec_numeral)
  have o: "ex_lists_one ?key = [stringify_event ex_old_event]"
    by (simp add: ex_lists_one_def)
  show ?thesis
    using h p2 p1 1 o 2 ne 3 4 5 6 7 l 8 9 10 11 by (intro conjI) assumption+
qed


text \<open>
  The claim C8 as stated fails in two places. A successful \<^verbatim>\<open>OPEN\<close> request to the
  \<^verbatim>\<open>post_status\<close> route for one file pushes no event: the list of the namespace is as
  empty after the request as before. And asked for at most 0 events,
  \<^verbatim>\<open>getRecentActivityEvents\<close> raises the limit to 1 and returns the newest event.
\<close>

theorem activity_log_counterexample:
  "http_status (post_status ex_post_env
      (mk_post_request ''https://github.com/a/b'' ''main'' [''src/auth.ts''] OPEN ''done''
         None None ex_headers_user2)) = 200
   \<and> post_succeeded (post_status ex_post_env
      (mk_post_request ''https://github.com/a/b'' ''main'' [''src/auth.ts''] OPEN ''done''
         None None ex_headers_user2))
   \<and> getRecentActivityEvents ex_client ex_normalizeRepoUrl ''https://github.com/a/b'' ''main''
        None
        (post_status_activity ex_post_env
           (mk_post_request ''https://github.com/a/b'' ''main'' [''src/auth.ts''] OPEN ''done''
              None None ex_headers_user2) ex_empty_lists) = []
   \<and> length (getRecentActivityEvents ex_client ex_normalizeRepoUrl ''https://github.com/a/b''
        ''main'' (Some (Finite 0)) ex_activity_lists) = 1"
proof -
  have 1: "http_status (post_status ex_post_env
      (mk_post_request ''https://github.com/a/b'' ''main'' [''src/auth.ts''] OPEN ''done''
         None None ex_headers_user2)) = 200"
    and 2: "post_succeeded (post_status ex_post_env
      (mk_post_request ''https://github.com/a/b'' ''main'' [''src/auth.ts''] OPEN ''done''
         None None ex_headers_user2))"
    by (simp_all add: post_succeeded_def post_status_def mk_post_request_def post_open_def
          ex_post_env_def ex_release_ok_def Let_def)
  have 3: "getRecentActivityEvents ex_client ex_normalizeRepoUrl ''https://github.com/a/b''
        ''main'' None
        (post_status_activity ex_post_env
           (mk_post_request ''https://github.com/a/b'' ''main'' [''src/auth.ts''] OPEN ''done''
              None None ex_headers_user2) ex_empty_lists) = []"
    by (simp add: read_at_key ex_client_def post_status_activity_def ex_empty_lists_def
          List.map_filter_simps)
  have 4: "length (getRecentActivityEvents ex_client ex_normalizeRepoUrl
        ''https://github.com/a/b'' ''main'' (Some (Finite 0)) ex_activity_lists) = 1"
    by (simp add: read_at_key publish_at_key ex_client_def ex_activity_lists_def
          ex_publish_input_def safeLimit_def List.map_filter_simps activity_events_def
          ex_empty_lists_def)
  show ?thesis using 1 2 3 4 by (intro conjI) assumption+
qed

subsection \<open>Graph builder: version, order and re-builds\<close>

lemma sort_sorted_id:
  "Sorting_Algorithms.sorted cmp xs \<Longrightarrow> Sorting_Algorithms.sort cmp xs = xs"
  by (rule sort_eqI) simp_all

lemma graph_sorted_assemble: "graph_sorted (be_localeCompare env) (assemble env c built)"
  by (simp add: graph_sorted_def assemble_def Let_def)

lemma version_assemble: "version (assemble env c built) = c"
  by (simp add: assemble_def Let_def)

lemma assemble_sorted_input:
  assumes "Sorting_Algorithms.sorted (key node_id (be_localeCompare env)) ns"
    and "Sorting_Algorithms.sorted (edge_comparator (be_localeCompare env)) es"
  shows "assemble env c (ns, es, ks, n) =
           \<lparr>nodes = ns, edges = es, locks = Map.empty, version = c,
            metadata = \<lparr>generated_at = be_now env, files_processed = n,
                        edges_found = length es\<rparr>\<rparr>"
  using assms by (simp add: assemble_def Let_def sort_sorted_id)

lemma process_file_nodes_nonempty:
  "fst (process_file env ps f s) \<noteq> []"
  by (cases s)
     (auto simp: process_file_def Let_def split: sum.splits content_result.splits
        option.splits prod.splits)

lemma fold_process_file_nodes:
  "fst s \<noteq> [] \<or> fs \<noteq> [] \<Longrightarrow> fst (fold (process_file env ps) fs s) \<noteq> []"
proof (induction fs arbitrary: s)
  case Nil
  then show ?case by simp
next
  case (Cons f fs)
  have "fst (process_file env ps f s) \<noteq> []" by (rule process_file_nodes_nonempty)
  then show ?case using Cons.IH [of "process_file env ps f s"] by simp
qed

lemma set_fold_set_add: "set (fold set_add xs acc) = set acc \<union> set xs"
  by (induction xs arbitrary: acc) auto

lemma diff_plan_nodes_nonempty:
  assumes "diff_plan kv files ps = (ns, es, todo, del)" and "files \<noteq> []"
  shows "ns \<noteq> [] \<or> todo \<noteq> []"
  using assms by (auto simp: diff_plan_def Let_def split: if_splits)

lemma map_of_fold_update_files:
  "distinct (map rf_path files) \<Longrightarrow>
   map_of (fold (\<lambda>f. AList.update (rf_path f) (rf_sha f)) files acc) p =
     (case map_of (map (\<lambda>f. (rf_path f, rf_sha f)) files) p of
        Some v \<Rightarrow> Some v
      | None \<Rightarrow> map_of acc p)"
proof (induction files arbitrary: acc)
  case Nil
  then show ?case by simp
next
  case (Cons f fs)
  have "rf_path f \<notin> rf_path ` set fs" using Cons.prems by auto
  then have n: "map_of (map (\<lambda>f. (rf_path f, rf_sha f)) fs) (rf_path f) = None"
    by (simp add: map_of_eq_None_iff image_image)
  show ?case using Cons n by (auto simp: update_conv' split: option.splits)
qed

lemma keys_fold_update_files:
  "fst ` set (fold (\<lambda>f. AList.update (rf_path f) (rf_sha f)) files acc)
     = fst ` set acc \<union> rf_path ` set files"
  by (induction files arbitrary: acc) (auto simp: dom_update)

lemma map_of_new_shas:
  assumes "distinct (map rf_path files)" and "f \<in> set files"
  shows "map_of (new_shas files) (rf_path f) = Some (rf_sha f)"
proof -
  have "map_of (map (\<lambda>f. (rf_path f, rf_sha f)) files) (rf_path f) = Some (rf_sha f)"
    using assms by (induction files) (auto simp: image_iff)
  then show ?thesis
    using assms(1) by (simp add: new_shas_def map_of_fold_update_files)
qed

lemma keys_new_shas: "fst ` set (new_shas files) = rf_path ` set files"
  by (simp add: new_shas_def keys_fold_update_files)

lemma distinct_fold_update_files:
  "distinct (map fst acc) \<Longrightarrow>
   distinct (map fst (fold (\<lambda>f. AList.update (rf_path f) (rf_sha f)) files acc))"
  by (induction files arbitrary: acc) (auto simp: distinct_update)

lemma distinct_new_shas: "distinct (map fst (new_shas files))"
  by (simp add: new_shas_def distinct_fold_update_files)

lemma map_of_hset:
  "distinct (map fst new) \<Longrightarrow>
   map_of (hset new h) p = (case map_of new p of Some v \<Rightarrow> Some v | None \<Rightarrow> map_of h p)"
  unfolding hset_def
proof (induction new arbitrary: h)
  case Nil
  then show ?case by simp
next
  case (Cons kv new)
  have "fst kv \<notin> fst ` set new" using Cons.prems by auto
  then have "map_of new (fst kv) = None" by (simp add: map_of_eq_None_iff)
  then show ?case using Cons by (cases kv) (auto simp: update_conv' split: option.splits)
qed

lemma keys_hset: "fst ` set (hset new h) = fst ` set h \<union> fst ` set new"
  unfolding hset_def by (induction new arbitrary: h) (auto simp: dom_update)

lemma keys_hdel: "fst ` set (hdel ks h) = fst ` set h - set ks"
  by (auto simp: hdel_def)

lemma shas_after_build:
  assumes "distinct (map rf_path files)"
    and "set allFilePaths = rf_path ` set files"
    and "deletedFiles = filter (\<lambda>p. p \<notin> set allFilePaths) (map fst storedShas)"
    and "shas' = hset (new_shas files) (hdel deletedFiles storedShas)"
  shows "\<forall>f \<in> set files. map_of shas' (rf_path f) = Some (rf_sha f)"
    and "fst ` set shas' \<subseteq> set allFilePaths"
proof -
  show "\<forall>f \<in> set files. map_of shas' (rf_path f) = Some (rf_sha f)"
    using assms(1) by (simp add: assms(4) map_of_hset distinct_new_shas map_of_new_shas)
  show "fst ` set shas' \<subseteq> set allFilePaths"
    by (auto simp: assms(2,3,4) keys_hset keys_hdel keys_new_shas)
qed

lemma diff_plan_synced:
  assumes "kv_graph kv = Some (Stored g)"
    and "\<forall>f \<in> set files. map_of (kv_fileShas kv) (rf_path f) = Some (rf_sha f)"
    and "list_all (\<lambda>f. rf_sha f \<noteq> []) files"
    and "fst ` set (kv_fileShas kv) \<subseteq> set allFilePaths"
    and "files \<noteq> [] \<longrightarrow> nodes g \<noteq> []"
  shows "diff_plan kv files allFilePaths = (nodes g, edges g, [], [])"
proof -
  have known: "\<forall>f \<in> set files. sha_known (kv_fileShas kv) (rf_path f)"
    using assms(2,3) by (auto simp: sha_known_def list_all_iff)
  have new: "filter (\<lambda>f. \<not> sha_known (kv_fileShas kv) (rf_path f)) files = []"
    using known by (simp add: filter_empty_conv)
  have changed: "filter (\<lambda>f. sha_known (kv_fileShas kv) (rf_path f)
                    \<and> map_of (kv_fileShas kv) (rf_path f) \<noteq> Some (rf_sha f)) files = []"
    using assms(2) by (simp add: filter_empty_conv)
  have deleted: "filter (\<lambda>p. p \<notin> set allFilePaths) (map fst (kv_fileShas kv)) = []"
    using assms(4) by (auto simp: filter_empty_conv)
  have ex: "existing_graph kv [] [] = (nodes g, edges g, True)"
    using assms(1) by (simp add: existing_graph_def)
  show ?thesis
    unfolding diff_plan_def Let_def new changed deleted ex
    using assms(5) by auto
qed

lemma build_returns:
  assumes "build env kv c = (kv1, Inr g1)"
  obtains tree l built where "be_tree env = Inr tree" and "be_locks env = Inr l"
    and "g1 = (assemble env c built)\<lparr>locks := l\<rparr>"
    and "kv_graph kv1 = Some (Stored (assemble env c built))"
    and "kv_meta kv1 = Some c"
    and "kv_fileShas kv1 =
           hset (new_shas (tree_files tree))
             (hdel (filter (\<lambda>p. p \<notin> set (fold set_add (map rf_path (tree_files tree)) []))
                      (map fst (kv_fileShas kv)))
                   (kv_fileShas kv))"
    and "tree_files tree \<noteq> [] \<longrightarrow> fst built \<noteq> []"
proof -
  from assms obtain tree where t: "be_tree env = Inr tree"
    by (cases "be_tree env") (auto simp: build_def)
  let ?files = "tree_files tree"
  let ?ps = "fold set_add (map rf_path ?files) []"
  obtain ns es todo del where d: "diff_plan kv ?files ?ps = (ns, es, todo, del)"
    by (cases "diff_plan kv ?files ?ps") auto
  have del: "del = filter (\<lambda>p. p \<notin> set ?ps) (map fst (kv_fileShas kv))"
    using d by (auto simp: diff_plan_def Let_def split: if_splits)
  let ?built = "fold (process_file env ?ps) todo
                  (ns, es, fold set_add (map (\<lambda>e. edge_key (source e) (target e)) es) [], 0)"
  from assms t d obtain l where l: "be_locks env = Inr l"
    by (cases "be_locks env") (auto simp: build_def Let_def)
  have ne: "?files \<noteq> [] \<longrightarrow> fst ?built \<noteq> []"
    using diff_plan_nodes_nonempty [OF d] fold_process_file_nodes [of _ todo env ?ps]
    by auto
  from assms t d l have "g1 = (assemble env c ?built)\<lparr>locks := l\<rparr>"
    and "kv_graph kv1 = Some (Stored (assemble env c ?built))"
    and "kv_meta kv1 = Some c"
    and "kv_fileShas kv1 = hset (new_shas ?files) (hdel del (kv_fileShas kv))"
    by (auto simp: build_def Let_def)
  then show thesis using that [OF t l] ne del by blast
qed

lemma length_sort_nonempty:
  "xs \<noteq> [] \<Longrightarrow> Sorting_Algorithms.sort cmp xs \<noteq> []"
  using length_sort [of cmp xs] by (cases "Sorting_Algorithms.sort cmp xs") auto

lemma nodes_assemble_nonempty: "fst built \<noteq> [] \<Longrightarrow> nodes (assemble env c built) \<noteq> []"
  by (simp add: assemble_def Let_def length_sort_nonempty)

lemma build_synced:
  assumes "kv_graph kv = Some (Stored g)"
    and "graph_sorted (be_localeCompare env) g"
    and "be_tree env = Inr tree" and "be_locks env = Inr l"
    and "\<forall>f \<in> set (tree_files tree). map_of (kv_fileShas kv) (rf_path f) = Some (rf_sha f)"
    and "list_all (\<lambda>f. rf_sha f \<noteq> []) (tree_files tree)"
    and "fst ` set (kv_fileShas kv) \<subseteq> rf_path ` set (tree_files tree)"
    and "tree_files tree \<noteq> [] \<longrightarrow> nodes g \<noteq> []"
  shows "snd (build env kv c) =
           Inr \<lparr>nodes = nodes g, edges = edges g, locks = l, version = c,
                metadata = \<lparr>generated_at = be_now env, files_processed = 0,
                            edges_found = length (edges g)\<rparr>\<rparr>"
proof -
  let ?files = "tree_files tree"
  let ?ps = "fold set_add (map rf_path ?files) []"
  have ps: "set ?ps = rf_path ` set ?files" by (simp add: set_fold_set_add)
  have d: "diff_plan kv ?files ?ps = (nodes g, edges g, [], [])"
    using assms(1,5,6,7,8) by (intro diff_plan_synced) (simp_all add: ps)
  have a: "assemble env c (nodes g, edges g, ks, 0) =
           \<lparr>nodes = nodes g, edges = edges g, locks = Map.empty, version = c,
            metadata = \<lparr>generated_at = be_now env, files_processed = 0,
                        edges_found = length (edges g)\<rparr>\<rparr>" for ks
    using assms(2) by (intro assemble_sorted_input) (simp_all add: graph_sorted_def)
  show ?thesis
    using assms(3,4) by (simp add: build_def Let_def d a)
qed

lemma kv_consistent_empty: "kv_consistent cmp empty_kv"
  by (simp add: kv_consistent_def empty_kv_def)

lemma build_keeps_consistent:
  assumes "kv_consistent (be_localeCompare env) kv"
  shows "kv_consistent (be_localeCompare env) (fst (build env kv c))"
proof (cases "be_tree env")
  case (Inl e)
  then show ?thesis using assms by (simp add: build_def)
next
  case (Inr tree)
  then show ?thesis
    by (auto simp: build_def Let_def kv_consistent_def version_assemble graph_sorted_assemble
          split: prod.splits sum.splits)
qed

lemma generate_keeps_consistent:
  assumes "kv_consistent (be_localeCompare env) kv"
  shows "kv_consistent (be_localeCompare env) (fst (generate env kv force))"
  using assms build_keeps_consistent [OF assms]
  by (auto simp: generate_def split: sum.splits option.splits)

text \<open>
  C9 (as amended). A graph returned by \<^verbatim>\<open>generate\<close> when the remote head is \<open>c\<close> is either
  built or served from the cache. A graph that is built has version \<open>c\<close>, its nodes sorted
  by id and its edges sorted by source, then target (in the collation of
  \<^verbatim>\<open>localeCompare\<close>), whatever the namespace held before. A graph served from the cache is
  the stored graph, so it has version \<open>c\<close> and is sorted provided the namespace is
  consistent: the stored graph carries the stored head as its version and is itself sorted.
  In both cases the namespace is consistent afterwards. After a call that built the graph
  from a well-formed tree (distinct paths, non-empty blob SHAs), a further call on the same
  head, tree and locks returns the same nodes, edges, version, locks and \<^verbatim>\<open>edges_found\<close>:
  without \<^verbatim>\<open>force\<close> it returns the very same graph and writes nothing, with \<^verbatim>\<open>force\<close> it
  processes no file, so \<^verbatim>\<open>metadata.files_processed\<close> is 0 and \<^verbatim>\<open>metadata.generated_at\<close> is
  the new time.
\<close>

theorem generate_version_sorted_idempotent:
  assumes "served_from_cache env kv force \<longrightarrow> kv_consistent (be_localeCompare env) kv"
    and "be_head env = Inr c"
    and "generate env kv force = (kv1, Inr g1)"
  shows "version g1 = c \<and> graph_sorted (be_localeCompare env) g1
       \<and> kv_consistent (be_localeCompare env) kv1
       \<and> (\<not> served_from_cache env kv force \<and> wf_tree env \<longrightarrow>
            (\<forall>env2 force2. same_repo env env2 \<longrightarrow>
               (\<exists>g2. snd (generate env2 kv1 force2) = Inr g2
                  \<and> nodes g2 = nodes g1 \<and> edges g2 = edges g1 \<and> version g2 = version g1
                  \<and> locks g2 = locks g1
                  \<and> edges_found (metadata g2) = edges_found (metadata g1)
                  \<and> (if force2
                      then files_processed (metadata g2) = 0
                           \<and> generated_at (metadata g2) = be_now env2
                      else g2 = g1 \<and> fst (generate env2 kv1 force2) = kv1))))"
proof (cases "served_from_cache env kv force")
  case True
  then have m: "kv_meta kv = Some c" and f: "\<not> force"
    using assms(2) by (auto simp: served_from_cache_def)
  from True assms(2) obtain cached where c: "getCached env kv = Some cached"
    by (auto simp: served_from_cache_def)
  from c obtain g l where g: "kv_graph kv = Some (Stored g)" and l: "cached = g\<lparr>locks := l\<rparr>"
    by (auto simp: getCached_def split: option.splits stored_graph.splits sum.splits)
  have r: "kv1 = kv" "g1 = cached"
    using assms(2,3) m f c by (auto simp: generate_def)
  have kc: "kv_consistent (be_localeCompare env) kv"
    using assms(1) True by simp
  then have "kv_meta kv = Some (version g)" "graph_sorted (be_localeCompare env) g"
    using g by (auto simp: kv_consistent_def)
  then have "version g1 = c" "graph_sorted (be_localeCompare env) g1"
    using m r l by (auto simp: graph_sorted_def)
  then show ?thesis using True kc r by simp
next
  case False
  then have b: "build env kv c = (kv1, Inr g1)"
    using assms(2,3)
    by (auto simp: generate_def served_from_cache_def split: option.splits if_splits)
  from b obtain tree l built where t: "be_tree env = Inr tree" and l: "be_locks env = Inr l"
    and g1: "g1 = (assemble env c built)\<lparr>locks := l\<rparr>"
    and kg: "kv_graph kv1 = Some (Stored (assemble env c built))"
    and km: "kv_meta kv1 = Some c"
    and ks: "kv_fileShas kv1 =
           hset (new_shas (tree_files tree))
             (hdel (filter (\<lambda>p. p \<notin> set (fold set_add (map rf_path (tree_files tree)) []))
                      (map fst (kv_fileShas kv)))
                   (kv_fileShas kv))"
    and ne: "tree_files tree \<noteq> [] \<longrightarrow> fst built \<noteq> []"
    by (rule build_returns)
  let ?g = "assemble env c built"
  let ?cmp = "be_localeCompare env"
  have v: "version g1 = c" by (simp add: g1 version_assemble)
  have s: "graph_sorted ?cmp g1"
    using graph_sorted_assemble [of env c built] by (simp add: g1 graph_sorted_def)
  have k: "kv_consistent ?cmp kv1"
    by (simp add: kv_consistent_def kg km version_assemble graph_sorted_assemble)
  have i: "\<exists>g2. snd (generate env2 kv1 force2) = Inr g2
                  \<and> nodes g2 = nodes g1 \<and> edges g2 = edges g1 \<and> version g2 = version g1
                  \<and> locks g2 = locks g1
                  \<and> edges_found (metadata g2) = edges_found (metadata g1)
                  \<and> (if force2
                      then files_processed (metadata g2) = 0
                           \<and> generated_at (metadata g2) = be_now env2
                      else g2 = g1 \<and> fst (generate env2 kv1 force2) = kv1)"
    if w: "wf_tree env" and sr: "same_repo env env2" for env2 force2
  proof -
    have e2: "be_head env2 = Inr c" "be_tree env2 = Inr tree" "be_locks env2 = Inr l"
      "be_localeCompare env2 = ?cmp"
      using sr assms(2) t l by (simp_all add: same_repo_def)
    show ?thesis
    proof (cases force2)
      case False
      have "getCached env2 kv1 = Some g1"
        by (simp add: getCached_def kg e2 g1)
      then have "generate env2 kv1 force2 = (kv1, Inr g1)"
        using False by (simp add: generate_def e2 km)
      then show ?thesis using False by simp
    next
      case True
      have wf: "distinct (map rf_path (tree_files tree))"
        "list_all (\<lambda>f. rf_sha f \<noteq> []) (tree_files tree)"
        using w t by (simp_all add: wf_tree_def wf_files_def)
      have ps: "set (fold set_add (map rf_path (tree_files tree)) []) = rf_path ` set (tree_files tree)"
        by (simp add: set_fold_set_add)
      note sh = shas_after_build [OF wf(1) ps refl ks]
      have "snd (build env2 kv1 c) =
           Inr \<lparr>nodes = nodes ?g, edges = edges ?g, locks = l, version = c,
                metadata = \<lparr>generated_at = be_now env2, files_processed = 0,
                            edges_found = length (edges ?g)\<rparr>\<rparr>"
      proof (rule build_synced [OF kg _ e2(2) e2(3) sh(1) wf(2)])
        show "graph_sorted (be_localeCompare env2) ?g"
          by (simp add: e2 graph_sorted_assemble)
        show "fst ` set (kv_fileShas kv1) \<subseteq> rf_path ` set (tree_files tree)"
          using sh(2) by (simp add: ps)
        show "tree_files tree \<noteq> [] \<longrightarrow> nodes ?g \<noteq> []"
          using ne by (simp add: nodes_assemble_nonempty)
      qed
      moreover have "generate env2 kv1 force2 = build env2 kv1 c"
        using True by (simp add: generate_def e2)
      moreover have "edges_found (metadata g1) = length (edges ?g)"
        by (simp add: g1 assemble_def Let_def)
      ultimately show ?thesis
        using True by (simp add: g1 version_assemble)
    qed
  qed
  show ?thesis using v s k i by blast
qed

lemma ex_files: "tree_files ex_tree =
  [\<lparr>rf_path = ''src/b.ts'', rf_sha = ''sha-b'', rf_size = Some 20\<rparr>,
   \<lparr>rf_path = ''src/a.ts'', rf_sha = ''sha-a'', rf_size = Some 10\<rparr>]"
  by (simp add: tree_files_def ex_tree_def List.map_filter_simps tree_file_def endsWith_def
      supportedExtensions_def)

lemma ex_diff_plan:
  "diff_plan empty_kv (tree_files ex_tree) [''src/b.ts'', ''src/a.ts'']
     = ([], [], tree_files ex_tree, [])"
  by (simp add: diff_plan_def empty_kv_def existing_graph_def Let_def ex_files sha_known_def)

lemma ex_built:
  "fold (process_file ex_build_env [''src/b.ts'', ''src/a.ts'']) (tree_files ex_tree)
     ([], [], [], 0) =
   ([\<lparr>node_id = ''src/b.ts'', node_size = Some 20, node_language = Some ''typescript''\<rparr>,
     \<lparr>node_id = ''src/a.ts'', node_size = Some 10, node_language = Some ''typescript''\<rparr>],
    [\<lparr>source = ''src/a.ts'', target = ''src/b.ts''\<rparr>], [''src/a.ts=>src/b.ts''], 2)"
  by (simp add: ex_files process_file_def ex_build_env_def ex_content_def Let_def
        ex_getFileLanguage_def ex_parseImports_def add_import_def ex_resolve_def edge_key_def
        set_add_def)

lemma ex_assemble:
  "assemble ex_build_env ''c1''
     ([\<lparr>node_id = ''src/b.ts'', node_size = Some 20, node_language = Some ''typescript''\<rparr>,
       \<lparr>node_id = ''src/a.ts'', node_size = Some 10, node_language = Some ''typescript''\<rparr>],
      [\<lparr>source = ''src/a.ts'', target = ''src/b.ts''\<rparr>], [''src/a.ts=>src/b.ts''], 2)
   = ex_graph1"
  by (simp add: assemble_def ex_build_env_def Let_def ex_graph1_def)

lemma ex_first_build: "generate ex_build_env empty_kv False = (ex_kv1, Inr ex_graph1)"
proof -
  have ps: "fold set_add (map rf_path (tree_files ex_tree)) [] = [''src/b.ts'', ''src/a.ts'']"
    by (simp add: ex_files set_add_def)
  have sh: "hset (new_shas (tree_files ex_tree)) (hdel [] (kv_fileShas empty_kv))
              = [(''src/b.ts'', ''sha-b''), (''src/a.ts'', ''sha-a'')]"
    by (simp add: ex_files new_shas_def hset_def hdel_def empty_kv_def)
  have h: "be_head ex_build_env = Inr ''c1''" "be_tree ex_build_env = Inr ex_tree"
    "be_locks ex_build_env = Inr (map_of [])"
    by (simp_all add: ex_build_env_def)
  have "build ex_build_env empty_kv ''c1'' = (ex_kv1, Inr ex_graph1)"
    by (simp add: build_def h Let_def ps ex_diff_plan ex_built ex_assemble sh ex_kv1_def)
       (simp add: ex_graph1_def)
  then show ?thesis
    by (simp add: generate_def h empty_kv_def)
qed

lemma ex_wf_tree: "wf_tree ex_build_env"
  by (simp add: wf_tree_def wf_files_def ex_build_env_def ex_files)

lemma ex_not_served: "\<not> served_from_cache ex_build_env empty_kv False"
  by (simp add: served_from_cache_def ex_build_env_def empty_kv_def)

lemma ex_rebuild:
  "snd (generate ex_build_env ex_kv1 True) =
     Inr (ex_graph1\<lparr>metadata := \<lparr>generated_at = 1000, files_processed = 0, edges_found = 1\<rparr>\<rparr>)"
proof -
  have h: "be_head ex_build_env = Inr ''c1''" "be_tree ex_build_env = Inr ex_tree"
    "be_locks ex_build_env = Inr (map_of [])"
    by (simp_all add: ex_build_env_def)
  have "snd (build ex_build_env ex_kv1 ''c1'') =
          Inr \<lparr>nodes = nodes ex_graph1, edges = edges ex_graph1, locks = map_of [],
               version = ''c1'',
               metadata = \<lparr>generated_at = be_now ex_build_env, files_processed = 0,
                           edges_found = length (edges ex_graph1)\<rparr>\<rparr>"
  proof (rule build_synced [OF _ _ h(2) h(3)])
    show "kv_graph ex_kv1 = Some (Stored ex_graph1)" by (simp add: ex_kv1_def)
    show "graph_sorted (be_localeCompare ex_build_env) ex_graph1"
      by (simp add: graph_sorted_def ex_build_env_def ex_graph1_def edge_comparator_def)
    show "\<forall>f\<in>set (tree_files ex_tree). map_of (kv_fileShas ex_kv1) (rf_path f) = Some (rf_sha f)"
      by (simp add: ex_files ex_kv1_def)
    show "list_all (\<lambda>f. rf_sha f \<noteq> []) (tree_files ex_tree)" by (simp add: ex_files)
    show "fst ` set (kv_fileShas ex_kv1) \<subseteq> rf_path ` set (tree_files ex_tree)"
      by (simp add: ex_files ex_kv1_def)
    show "tree_files ex_tree \<noteq> [] \<longrightarrow> nodes ex_graph1 \<noteq> []" by (simp add: ex_graph1_def)
  qed
  then show ?thesis
    by (simp add: generate_def h) (simp add: ex_graph1_def ex_build_env_def)
qed

lemma ex_cached: "generate ex_build_env ex_kv1 False = (ex_kv1, Inr ex_graph1)"
  by (simp add: generate_def getCached_def ex_build_env_def ex_kv1_def) (simp add: ex_graph1_def)

lemma ex_served: "served_from_cache ex_build_env ex_kv1 False"
  by (simp add: served_from_cache_def getCached_def ex_build_env_def ex_kv1_def)

theorem generate_version_sorted_idempotent_witness:
  "\<not> served_from_cache ex_build_env empty_kv False
   \<and> be_head ex_build_env = Inr ''c1''
   \<and> generate ex_build_env empty_kv False = (ex_kv1, Inr ex_graph1)
   \<and> wf_tree ex_build_env
   \<and> same_repo ex_build_env ex_build_env
   \<and> version ex_graph1 = ''c1'' \<and> graph_sorted (be_localeCompare ex_build_env) ex_graph1
   \<and> kv_consistent (be_localeCompare ex_build_env) ex_kv1
   \<and> (\<exists>g2. snd (generate ex_build_env ex_kv1 True) = Inr g2
          \<and> nodes g2 = nodes ex_graph1 \<and> edges g2 = edges ex_graph1
          \<and> version g2 = version ex_graph1 \<and> locks g2 = locks ex_graph1
          \<and> edges_found (metadata g2) = edges_found (metadata ex_graph1)
          \<and> files_processed (metadata g2) = 0
          \<and> generated_at (metadata g2) = be_now ex_build_env)
   \<and> served_from_cache ex_build_env ex_kv1 False
   \<and> generate ex_build_env ex_kv1 False = (ex_kv1, Inr ex_graph1)
   \<and> nodes ex_graph1 =
        [\<lparr>node_id = ''src/a.ts'', node_size = Some 10, node_language = Some ''typescript''\<rparr>,
         \<lparr>node_id = ''src/b.ts'', node_size = Some 20, node_language = Some ''typescript''\<rparr>]
   \<and> edges ex_graph1 = [\<lparr>source = ''src/a.ts'', target = ''src/b.ts''\<rparr>]"
proof -
  have h: "be_head ex_build_env = Inr ''c1''" by (simp add: ex_build_env_def)
  have s: "same_repo ex_build_env ex_build_env" by (simp add: same_repo_def)
  have n: "served_from_cache ex_build_env empty_kv False
             \<longrightarrow> kv_consistent (be_localeCompare ex_build_env) empty_kv"
    by (simp add: kv_consistent_empty)
  note t = generate_version_sorted_idempotent [OF n h ex_first_build]
  have 1: "version ex_graph1 = ''c1''"
    by (rule t [THEN conjunct1])
  have 2: "graph_sorted (be_localeCompare ex_build_env) ex_graph1"
    by (rule t [THEN conjunct2, THEN conjunct1])
  have 3: "kv_consistent (be_localeCompare ex_build_env) ex_kv1"
    by (rule t [THEN conjunct2, THEN conjunct2, THEN conjunct1])
  have "\<exists>g2. snd (generate ex_build_env ex_kv1 True) = Inr g2
          \<and> nodes g2 = nodes ex_graph1 \<and> edges g2 = edges ex_graph1
          \<and> version g2 = version ex_graph1 \<and> locks g2 = locks ex_graph1
          \<and> edges_found (metadata g2) = edges_found (metadata ex_graph1)
          \<and> (if True then files_processed (metadata g2) = 0
                \<and> generated_at (metadata g2) = be_now ex_build_env
              else g2 = ex_graph1 \<and> fst (generate ex_build_env ex_kv1 True) = ex_kv1)"
    by (rule t [THEN conjunct2, THEN conjunct2, THEN conjunct2, THEN mp,
                OF conjI [OF ex_not_served ex_wf_tree], THEN spec, THEN spec, THEN mp, OF s])
  then have 4: "\<exists>g2. snd (generate ex_build_env ex_kv1 True) = Inr g2
          \<and> nodes g2 = nodes ex_graph1 \<and> edges g2 = edges ex_graph1
          \<and> version g2 = version ex_graph1 \<and> locks g2 = locks ex_graph1
          \<and> edges_found (metadata g2) = edges_found (metadata ex_graph1)
          \<and> files_processed (metadata g2) = 0
          \<and> generated_at (metadata g2) = be_now ex_build_env"
    by simp
  have c: "served_from_cache ex_build_env ex_kv1 False
             \<longrightarrow> kv_consistent (be_localeCompare ex_build_env) ex_kv1"
    using 3 by simp
  note u = generate_version_sorted_idempotent [OF c h ex_cached]
  have 5: "nodes ex_graph1 =
        [\<lparr>node_id = ''src/a.ts'', node_size = Some 10, node_language = Some ''typescript''\<rparr>,
         \<lparr>node_id = ''src/b.ts'', node_size = Some 20, node_language = Some ''typescript''\<rparr>]"
    and 6: "edges ex_graph1 = [\<lparr>source = ''src/a.ts'', target = ''src/b.ts''\<rparr>]"
    by (simp_all add: ex_graph1_def)
  show ?thesis
    using ex_not_served h ex_first_build ex_wf_tree s u [THEN conjunct1]
      u [THEN conjunct2, THEN conjunct1] u [THEN conjunct2, THEN conjunct2, THEN conjunct1]
      4 ex_served ex_cached 5 6
    by (intro conjI) assumption+
qed

text \<open>
  The claim C9 as stated fails on a forced re-build: on the same commit and tree the first
  build reports two processed files, the forced re-build none, so the two graphs differ in
  \<^verbatim>\<open>metadata.files_processed\<close> and not only in \<^verbatim>\<open>metadata.generated_at\<close>.
\<close>

theorem generate_rebuild_metadata_counterexample:
  "result_files_processed (generate ex_build_env empty_kv False) = Some 2
   \<and> result_files_processed
        (generate ex_build_env (fst (generate ex_build_env empty_kv False)) True) = Some 0"
  by (simp add: ex_first_build ex_rebuild result_files_processed_def result_graph_def)
     (simp add: ex_graph1_def)

end
